theory Spec2Isabelle
  imports Main "HOL-Library.Word" "HOL-Library.Char_ord" "HOL-Library.List_Lexorder"
begin


section \<open>Python text and byte strings\<close>

text \<open>
  A Python \<^verbatim>\<open>str\<close> is modelled as a \<open>string\<close>: the list of its code points, each below
  256 (the Latin-1 range, which holds every literal of the program). A \<^verbatim>\<open>bytes\<close> value is
  a list of 8-bit words. On this range \<^verbatim>\<open>str.lower\<close> maps \<^verbatim>\<open>A\<close>..\<^verbatim>\<open>Z\<close> and the
  upper-case letters 192..222 (without the multiplication sign 215) to the code point 32
  above and leaves every other character; \<^verbatim>\<open>bytes.lower\<close> maps only \<^verbatim>\<open>A\<close>..\<^verbatim>\<open>Z\<close>.
\<close>

type_synonym byte = "8 word"
type_synonym bytes = "byte list"

definition lower_char :: "char \<Rightarrow> char" where
  "lower_char c =
     (let n = (of_char c :: nat) in
      if (65 \<le> n \<and> n \<le> 90) \<or> (192 \<le> n \<and> n \<le> 222 \<and> n \<noteq> 215)
      then char_of (n + 32) else c)"

definition str_lower :: "string \<Rightarrow> string" where
  "str_lower s = map lower_char s"

definition lower_byte :: "byte \<Rightarrow> byte" where
  "lower_byte b = (if 65 \<le> b \<and> b \<le> 90 then b + 32 else b)"

definition bytes_lower :: "bytes \<Rightarrow> bytes" where
  "bytes_lower bs = map lower_byte bs"

text \<open>
  \<^verbatim>\<open>str.strip()\<close> removes leading and trailing white space: the code points 9..13,
  28..32, 133 and 160 of this range.
\<close>

definition isspace :: "char \<Rightarrow> bool" where
  "isspace c =
     (let n = (of_char c :: nat) in
      (9 \<le> n \<and> n \<le> 13) \<or> (28 \<le> n \<and> n \<le> 32) \<or> n = 133 \<or> n = 160)"

definition str_strip :: "string \<Rightarrow> string" where
  "str_strip s = rev (dropWhile isspace (rev (dropWhile isspace s)))"

text \<open>
  The UTF-8 bytes of a text of this range: one byte for a code point below 128, two bytes
  for the others.
\<close>

definition encode_utf8_char :: "char \<Rightarrow> bytes" where
  "encode_utf8_char c =
     (let n = (of_char c :: nat) in
      if n < 128 then [of_nat n] else [of_nat (192 + n div 64), of_nat (128 + n mod 64)])"

definition utf8_bytes :: "string \<Rightarrow> bytes" where
  "utf8_bytes s = concat (map encode_utf8_char s)"

text \<open>
  A caller of the byte scan may pass keywords that UTF-8 cannot encode: a Python
  \<^verbatim>\<open>str\<close> may hold surrogate code points (\<^verbatim>\<open>U+D800\<close>..\<^verbatim>\<open>U+DFFF\<close>) that stand alone,
  and \<^verbatim>\<open>s.encode("utf-8")\<close> raises \<^verbatim>\<open>UnicodeEncodeError\<close> for such a text. The keys of
  the byte scan are therefore texts over the code points below 256 and the surrogates:
  \<open>Surrogate w\<close> is the code point \<^verbatim>\<open>U+D800\<close> + \<open>w\<close>. A surrogate has no lower-case form
  other than itself.
\<close>

datatype pychar = Latin1 char | Surrogate "11 word"

type_synonym pystr = "pychar list"

definition pystr_of :: "string \<Rightarrow> pystr" where
  "pystr_of s = map Latin1 s"

definition lower_pychar :: "pychar \<Rightarrow> pychar" where
  "lower_pychar c = (case c of Latin1 a \<Rightarrow> Latin1 (lower_char a) | Surrogate w \<Rightarrow> Surrogate w)"

definition pystr_lower :: "pystr \<Rightarrow> pystr" where
  "pystr_lower s = map lower_pychar s"

text \<open>\<^verbatim>\<open>s.encode("utf-8")\<close>; \<open>None\<close> is the raised \<^verbatim>\<open>UnicodeEncodeError\<close>.\<close>

fun encode_utf8 :: "pystr \<Rightarrow> bytes option" where
  "encode_utf8 [] = Some []"
| "encode_utf8 (Latin1 c # cs) =
     (case encode_utf8 cs of
        None \<Rightarrow> None
      | Some bs \<Rightarrow> Some (encode_utf8_char c @ bs))"
| "encode_utf8 (Surrogate w # cs) = None"

text \<open>
  \<open>contains needle hay\<close> is Python's \<^verbatim>\<open>needle in hay\<close> on two strings (or two byte
  strings): the needle occurs as a contiguous run. \<open>starts_with\<close> compares the needle
  with the front of the text.
\<close>

fun starts_with :: "'a list \<Rightarrow> 'a list \<Rightarrow> bool" where
  "starts_with [] hay = True"
| "starts_with (x # xs) [] = False"
| "starts_with (x # xs) (y # ys) = (x = y \<and> starts_with xs ys)"

fun contains :: "'a list \<Rightarrow> 'a list \<Rightarrow> bool" where
  "contains needle [] = (needle = [])"
| "contains needle (y # ys) = (starts_with needle (y # ys) \<or> contains needle ys)"

text \<open>\<^verbatim>\<open>sep.join(items)\<close>.\<close>

fun join :: "string \<Rightarrow> string list \<Rightarrow> string" where
  "join sep [] = []"
| "join sep [x] = x"
| "join sep (x # y # ys) = x @ sep @ join sep (y # ys)"


section \<open>The metadata document (src/src/exif\_utils.py)\<close>

text \<open>
  The program keeps image metadata in the dictionary that the EXIF library returns: the
  keys \<^verbatim>\<open>"0th"\<close>, \<^verbatim>\<open>"Exif"\<close>, \<^verbatim>\<open>"GPS"\<close> and \<^verbatim>\<open>"1st"\<close> hold one group each (a
  dictionary from numeric tag id to a value) and the key \<^verbatim>\<open>"thumbnail"\<close> holds
  \<^verbatim>\<open>None\<close> or the thumbnail's bytes. A key can be missing from a dictionary handed to the
  transformation functions; each of them starts with \<^verbatim>\<open>ensure_exif_structure\<close>, which
  inserts the missing keys.

  A Python value stored under a tag is an integer, a text string, a byte string, a tuple
  (a rational is the tuple of numerator and denominator) or a list.
\<close>

datatype tag_value =
  VInt int
| VStr string
| VBytes bytes
| VTuple "tag_value list"
| VList "tag_value list"

type_synonym ifd = "nat \<rightharpoonup> tag_value"

datatype ifd_name = IFD_0th | IFD_Exif | IFD_GPS | IFD_1st

text \<open>
  \<open>groups e k = None\<close>: the key is missing from the dictionary. \<open>thumbnail e = None\<close>: the
  key \<^verbatim>\<open>"thumbnail"\<close> is missing; \<open>Some None\<close>: it holds Python's \<^verbatim>\<open>None\<close>.
\<close>

record exif_dict =
  groups :: "ifd_name \<rightharpoonup> ifd"
  thumbnail :: "bytes option option"

definition empty_dict :: exif_dict where
  "empty_dict = \<lparr>groups = Map.empty, thumbnail = None\<rparr>"

subsection \<open>Tag ids\<close>

text \<open>
  The tag ids are the constants of the EXIF library (\<^verbatim>\<open>piexif.ImageIFD\<close>, \<^verbatim>\<open>piexif.ExifIFD\<close>):
  the numbers of the EXIF standard, most of them repeated in the comments of
  \<^verbatim>\<open>strip_identifying\<close>. The five Windows XP tags are defined by the program itself.
\<close>

definition XP_TITLE :: nat where "XP_TITLE = 40091"
definition XP_COMMENT :: nat where "XP_COMMENT = 40092"
definition XP_AUTHOR :: nat where "XP_AUTHOR = 40093"
definition XP_KEYWORDS :: nat where "XP_KEYWORDS = 40094"
definition XP_SUBJECT :: nat where "XP_SUBJECT = 40095"

definition XP_TAGS :: "nat list" where
  "XP_TAGS = [XP_TITLE, XP_COMMENT, XP_AUTHOR, XP_KEYWORDS, XP_SUBJECT]"

definition ImageIFD_ImageDescription :: nat where "ImageIFD_ImageDescription = 270"
definition ImageIFD_Make :: nat where "ImageIFD_Make = 271"
definition ImageIFD_Model :: nat where "ImageIFD_Model = 272"
definition ImageIFD_Orientation :: nat where "ImageIFD_Orientation = 274"
definition ImageIFD_Software :: nat where "ImageIFD_Software = 305"
definition ImageIFD_DateTime :: nat where "ImageIFD_DateTime = 306"
definition ImageIFD_Artist :: nat where "ImageIFD_Artist = 315"
definition ImageIFD_HostComputer :: nat where "ImageIFD_HostComputer = 316"
definition ImageIFD_Copyright :: nat where "ImageIFD_Copyright = 33432"

definition ExifIFD_ExposureTime :: nat where "ExifIFD_ExposureTime = 33434"
definition ExifIFD_FNumber :: nat where "ExifIFD_FNumber = 33437"
definition ExifIFD_ISOSpeedRatings :: nat where "ExifIFD_ISOSpeedRatings = 34855"
definition ExifIFD_DateTimeOriginal :: nat where "ExifIFD_DateTimeOriginal = 36867"
definition ExifIFD_DateTimeDigitized :: nat where "ExifIFD_DateTimeDigitized = 36868"
definition ExifIFD_FocalLength :: nat where "ExifIFD_FocalLength = 37386"
definition ExifIFD_MakerNote :: nat where "ExifIFD_MakerNote = 37500"
definition ExifIFD_UserComment :: nat where "ExifIFD_UserComment = 37510"
definition ExifIFD_ImageUniqueID :: nat where "ExifIFD_ImageUniqueID = 42016"
definition ExifIFD_CameraOwnerName :: nat where "ExifIFD_CameraOwnerName = 42032"
definition ExifIFD_BodySerialNumber :: nat where "ExifIFD_BodySerialNumber = 42033"
definition ExifIFD_LensMake :: nat where "ExifIFD_LensMake = 42035"
definition ExifIFD_LensModel :: nat where "ExifIFD_LensModel = 42036"
definition ExifIFD_LensSerialNumber :: nat where "ExifIFD_LensSerialNumber = 42037"

lemmas tag_defs =
  XP_TAGS_def XP_TITLE_def XP_COMMENT_def XP_AUTHOR_def XP_KEYWORDS_def XP_SUBJECT_def
  ImageIFD_ImageDescription_def ImageIFD_Make_def ImageIFD_Model_def
  ImageIFD_Orientation_def ImageIFD_Software_def ImageIFD_DateTime_def
  ImageIFD_Artist_def ImageIFD_HostComputer_def ImageIFD_Copyright_def
  ExifIFD_ExposureTime_def ExifIFD_FNumber_def ExifIFD_ISOSpeedRatings_def
  ExifIFD_DateTimeOriginal_def ExifIFD_DateTimeDigitized_def ExifIFD_FocalLength_def
  ExifIFD_MakerNote_def ExifIFD_UserComment_def ExifIFD_ImageUniqueID_def
  ExifIFD_CameraOwnerName_def ExifIFD_BodySerialNumber_def ExifIFD_LensMake_def
  ExifIFD_LensModel_def ExifIFD_LensSerialNumber_def

subsection \<open>Dictionary operations\<close>

text \<open>
  \<^verbatim>\<open>d.setdefault(k, default)\<close> stores the default only where the key is missing.
\<close>

definition setdefault :: "'a option \<Rightarrow> 'a \<Rightarrow> 'a option" where
  "setdefault slot dflt = (case slot of None \<Rightarrow> Some dflt | Some v \<Rightarrow> Some v)"

text \<open>
  \<^verbatim>\<open>
  def ensure_exif_structure(exif=None):
      if exif is None:
          exif = {}
      exif.setdefault("0th", {}); exif.setdefault("Exif", {})
      exif.setdefault("GPS", {}); exif.setdefault("1st", {})
      exif.setdefault("thumbnail", None)
      return exif
  \<close>
\<close>

definition ensure_exif_structure :: "exif_dict option \<Rightarrow> exif_dict" where
  "ensure_exif_structure arg =
     (let exif = (case arg of None \<Rightarrow> empty_dict | Some e \<Rightarrow> e) in
      exif\<lparr>groups := (\<lambda>k. setdefault (groups exif k) Map.empty),
            thumbnail := setdefault (thumbnail exif) None\<rparr>)"

text \<open>
  \<open>get_group\<close> is \<^verbatim>\<open>exif.get(ifd, {})\<close>. \<open>set_group\<close> is the assignment
  \<^verbatim>\<open>exif[ifd] = g\<close>. \<open>pop_tag\<close> is \<^verbatim>\<open>exif[ifd].pop(tag, None)\<close> and \<open>set_tag\<close> is
  \<^verbatim>\<open>exif[ifd][tag] = v\<close>: both are used only after \<open>ensure_exif_structure\<close>, where the
  key is present (lemma \<open>ensure_exif_structure_present\<close>), so the \<^verbatim>\<open>KeyError\<close> of
  \<^verbatim>\<open>exif[ifd]\<close> cannot occur.
\<close>

definition get_group :: "exif_dict \<Rightarrow> ifd_name \<Rightarrow> ifd" where
  "get_group exif k = (case groups exif k of None \<Rightarrow> Map.empty | Some g \<Rightarrow> g)"

definition set_group :: "exif_dict \<Rightarrow> ifd_name \<Rightarrow> ifd \<Rightarrow> exif_dict" where
  "set_group exif k g = exif\<lparr>groups := (groups exif)(k \<mapsto> g)\<rparr>"

definition pop_tag :: "exif_dict \<Rightarrow> ifd_name \<Rightarrow> nat \<Rightarrow> exif_dict" where
  "pop_tag exif k t = set_group exif k ((get_group exif k)(t := None))"

definition set_tag :: "exif_dict \<Rightarrow> ifd_name \<Rightarrow> nat \<Rightarrow> tag_value \<Rightarrow> exif_dict" where
  "set_tag exif k t v = set_group exif k ((get_group exif k)(t \<mapsto> v))"

text \<open>
  \<^verbatim>\<open>
  def remove_tags(exif, ifd, tags):
      target = exif.get(ifd, {})
      for t in tags:
          if t in target:
              target.pop(t, None)
  \<close>
  The loop mutates the group stored in the dictionary; where the key is missing the
  target is a fresh empty dictionary and nothing changes.
\<close>

fun remove_loop :: "nat list \<Rightarrow> ifd \<Rightarrow> ifd" where
  "remove_loop [] target = target"
| "remove_loop (t # ts) target =
     remove_loop ts (if target t \<noteq> None then target(t := None) else target)"

definition remove_tags :: "exif_dict \<Rightarrow> ifd_name \<Rightarrow> nat list \<Rightarrow> exif_dict" where
  "remove_tags exif k tags =
     (case groups exif k of
        None \<Rightarrow> exif
      | Some target \<Rightarrow> exif\<lparr>groups := (groups exif)(k \<mapsto> remove_loop tags target)\<rparr>)"

subsection \<open>Redaction: \<^verbatim>\<open>strip_identifying\<close>\<close>

text \<open>
  The two sets of tags to remove are Python sets; the model lists their members in the
  order of the source. The result does not depend on the order (lemma \<open>remove_loop_eq\<close>).
\<close>

definition tags_0th_remove :: "bool \<Rightarrow> nat list" where
  "tags_0th_remove remove_orientation =
     [ImageIFD_Make, ImageIFD_Model, ImageIFD_Software, ImageIFD_Artist,
      ImageIFD_HostComputer, ImageIFD_ImageDescription, ImageIFD_Copyright]
     @ XP_TAGS
     @ (if remove_orientation then [ImageIFD_Orientation] else [])"

definition tags_exif_remove :: "nat list" where
  "tags_exif_remove =
     [ExifIFD_LensMake, ExifIFD_LensModel, ExifIFD_LensSerialNumber,
      ExifIFD_BodySerialNumber, ExifIFD_CameraOwnerName, ExifIFD_MakerNote,
      ExifIFD_UserComment, ExifIFD_ImageUniqueID]"

definition pop_dates :: "exif_dict \<Rightarrow> exif_dict" where
  "pop_dates exif =
     pop_tag (pop_tag (pop_tag exif IFD_0th ImageIFD_DateTime)
                IFD_Exif ExifIFD_DateTimeOriginal)
       IFD_Exif ExifIFD_DateTimeDigitized"

definition strip_identifying :: "exif_dict \<Rightarrow> bool \<Rightarrow> bool \<Rightarrow> bool \<Rightarrow> exif_dict" where
  "strip_identifying exif0 preserve_dates anonymize_dates remove_orientation =
     (let exif = ensure_exif_structure (Some exif0);
          exif = set_group exif IFD_GPS Map.empty;
          exif = remove_tags exif IFD_0th (tags_0th_remove remove_orientation);
          exif = remove_tags exif IFD_Exif tags_exif_remove;
          exif = (if anonymize_dates then pop_dates exif
                  else if \<not> preserve_dates then pop_dates exif
                  else exif);
          exif = set_group exif IFD_1st Map.empty
      in exif\<lparr>thumbnail := Some None\<rparr>)"

subsection \<open>Camera identity: \<^verbatim>\<open>set_camera_make_model\<close>, \<^verbatim>\<open>apply_extended_camera_profile\<close>\<close>

text \<open>
  \<^verbatim>\<open>
  def set_camera_make_model(exif, *, make, model):
      exif = ensure_exif_structure(exif)
      exif["0th"][ImageIFD.Make] = make
      exif["0th"][ImageIFD.Model] = model
      return exif
  \<close>
  The parameters \<^verbatim>\<open>make\<close> and \<^verbatim>\<open>model\<close> are \<open>cam_make\<close> and \<open>cam_model\<close> here.
\<close>

definition set_camera_make_model :: "exif_dict \<Rightarrow> string \<Rightarrow> string \<Rightarrow> exif_dict" where
  "set_camera_make_model exif0 cam_make cam_model =
     (let exif = ensure_exif_structure (Some exif0);
          exif = set_tag exif IFD_0th ImageIFD_Make (VStr cam_make);
          exif = set_tag exif IFD_0th ImageIFD_Model (VStr cam_model)
      in exif)"

text \<open>
  \<^verbatim>\<open>
  def apply_extended_camera_profile(exif, *, profile, make, model):
      exif = ensure_exif_structure(exif)
      set_camera_make_model(exif, make=make, model=model)
      exif["Exif"][ExifIFD.FNumber] = (28, 10)
      exif["Exif"][ExifIFD.ExposureTime] = (1, 125)
      exif["Exif"][ExifIFD.FocalLength] = (50, 1)
      exif["Exif"][ExifIFD.ISOSpeedRatings] = 100
      if profile.lower() == "canon":
          exif["Exif"][ExifIFD.LensMake] = "Canon"
          exif["Exif"][ExifIFD.LensModel] = "EF 50mm f/1.8"
          exif["0th"][ImageIFD.Software] = "Canon Firmware"
      elif profile.lower() == "iphone":
          exif["Exif"][ExifIFD.LensMake] = "Apple"
          exif["Exif"][ExifIFD.LensModel] = "iPhone 14 Pro back camera 24mm f/1.78"
          exif["0th"][ImageIFD.Software] = "Apple iOS"
      else:
          exif["0th"][ImageIFD.Software] = "Camera System"
      return exif
  \<close>
  The call of \<^verbatim>\<open>set_camera_make_model\<close> mutates the dictionary in place; in the model its
  result is the dictionary the next statements work on.
\<close>

definition apply_extended_camera_profile ::
  "exif_dict \<Rightarrow> string \<Rightarrow> string \<Rightarrow> string \<Rightarrow> exif_dict" where
  "apply_extended_camera_profile exif0 profile cam_make cam_model =
     (let exif = ensure_exif_structure (Some exif0);
          exif = set_camera_make_model exif cam_make cam_model;
          exif = set_tag exif IFD_Exif ExifIFD_FNumber (VTuple [VInt 28, VInt 10]);
          exif = set_tag exif IFD_Exif ExifIFD_ExposureTime (VTuple [VInt 1, VInt 125]);
          exif = set_tag exif IFD_Exif ExifIFD_FocalLength (VTuple [VInt 50, VInt 1]);
          exif = set_tag exif IFD_Exif ExifIFD_ISOSpeedRatings (VInt 100)
      in if str_lower profile = ''canon'' then
           (let exif = set_tag exif IFD_Exif ExifIFD_LensMake (VStr ''Canon'');
                exif = set_tag exif IFD_Exif ExifIFD_LensModel (VStr ''EF 50mm f/1.8'')
            in set_tag exif IFD_0th ImageIFD_Software (VStr ''Canon Firmware''))
         else if str_lower profile = ''iphone'' then
           (let exif = set_tag exif IFD_Exif ExifIFD_LensMake (VStr ''Apple'');
                exif = set_tag exif IFD_Exif ExifIFD_LensModel
                         (VStr ''iPhone 14 Pro back camera 24mm f/1.78'')
            in set_tag exif IFD_0th ImageIFD_Software (VStr ''Apple iOS''))
         else set_tag exif IFD_0th ImageIFD_Software (VStr ''Camera System''))"

text \<open>
  \<^verbatim>\<open>
  def get_default_camera_profile(name):
      if not name or name.lower() == "canon":
          return ("canon", "Canon", "Canon EOS 5D Mark IV")
      if name.lower() == "iphone":
          return ("iphone", "Apple", "iPhone 14 Pro")
      if "|" in name:
          make, model = [p.strip() for p in name.split("|", 1)]
          return ("custom", make or "Camera", model or "Model")
      return ("custom", name, f"{name} Camera")
  \<close>
\<close>

definition get_default_camera_profile :: "string option \<Rightarrow> string \<times> string \<times> string" where
  "get_default_camera_profile arg =
     (case arg of
        None \<Rightarrow> (''canon'', ''Canon'', ''Canon EOS 5D Mark IV'')
      | Some name \<Rightarrow>
          if name = [] \<or> str_lower name = ''canon'' then
            (''canon'', ''Canon'', ''Canon EOS 5D Mark IV'')
          else if str_lower name = ''iphone'' then (''iphone'', ''Apple'', ''iPhone 14 Pro'')
          else if CHR ''|'' \<in> set name then
            (let cam_make = str_strip (takeWhile (\<lambda>c. c \<noteq> CHR ''|'') name);
                 cam_model = str_strip (tl (dropWhile (\<lambda>c. c \<noteq> CHR ''|'') name))
             in (''custom'', if cam_make = [] then ''Camera'' else cam_make,
                 if cam_model = [] then ''Model'' else cam_model))
          else (''custom'', name, name @ '' Camera''))"


section \<open>The readable projection (src/src/exif\_utils.py)\<close>

subsection \<open>Python's decoders with \<^verbatim>\<open>errors="ignore"\<close>\<close>

text \<open>
  A decoded text may hold any Unicode code point, so it is a list of code points here.
\<close>

type_synonym codepoints = "nat list"

definition codepoints_of :: "string \<Rightarrow> codepoints" where
  "codepoints_of s = map of_char s"

text \<open>
  \<^verbatim>\<open>value.decode("utf-8", errors="ignore")\<close>. Python's decoder reads one character at a
  time; where the bytes are no well-formed UTF-8 it drops the ill-formed bytes and goes on
  behind them, and it never raises:
  \<^item> a byte that cannot start a character (\<^verbatim>\<open>80..C1\<close>, \<^verbatim>\<open>F5..FF\<close>) is dropped;
  \<^item> a lead byte whose next byte cannot follow it is dropped, and decoding goes on at that
    next byte; likewise a lead byte and the continuation bytes read so far are dropped
    where a later continuation byte is missing;
  \<^item> a character cut off by the end of the input is dropped.

  The second byte of a three-byte character is restricted after \<^verbatim>\<open>E0\<close> (no overlong form)
  and after \<^verbatim>\<open>ED\<close> (no surrogate), that of a four-byte character after \<^verbatim>\<open>F0\<close> and after
  \<^verbatim>\<open>F4\<close> (nothing above \<^verbatim>\<open>U+10FFFF\<close>).
\<close>

definition is_continuation :: "byte \<Rightarrow> bool" where
  "is_continuation c = (0x80 \<le> c \<and> c \<le> 0xBF)"

definition second_of_three :: "byte \<Rightarrow> byte \<Rightarrow> bool" where
  "second_of_three b c =
     (is_continuation c
      \<and> (if b = 0xE0 then 0xA0 \<le> c else if b = 0xED then c < 0xA0 else True))"

definition second_of_four :: "byte \<Rightarrow> byte \<Rightarrow> bool" where
  "second_of_four b c =
     (is_continuation c
      \<and> (if b = 0xF0 then 0x90 \<le> c else if b = 0xF4 then c < 0x90 else True))"

definition low_bits :: "byte \<Rightarrow> nat" where
  "low_bits c = unat c - 0x80"

fun utf8_ignore :: "bytes \<Rightarrow> codepoints" where
  "utf8_ignore [] = []"
| "utf8_ignore (b # rest) =
     (if b < 0x80 then unat b # utf8_ignore rest
      else if b < 0xC2 then utf8_ignore rest
      else if b < 0xE0 then
        (case rest of
           [] \<Rightarrow> []
         | c1 # r1 \<Rightarrow>
             if is_continuation c1
             then ((unat b - 0xC0) * 64 + low_bits c1) # utf8_ignore r1
             else utf8_ignore rest)
      else if b < 0xF0 then
        (case rest of
           [] \<Rightarrow> []
         | c1 # r1 \<Rightarrow>
             if \<not> second_of_three b c1 then utf8_ignore rest
             else
               (case r1 of
                  [] \<Rightarrow> []
                | c2 # r2 \<Rightarrow>
                    if is_continuation c2
                    then ((unat b - 0xE0) * 4096 + low_bits c1 * 64 + low_bits c2)
                         # utf8_ignore r2
                    else utf8_ignore r1))
      else if b < 0xF5 then
        (case rest of
           [] \<Rightarrow> []
         | c1 # r1 \<Rightarrow>
             if \<not> second_of_four b c1 then utf8_ignore rest
             else
               (case r1 of
                  [] \<Rightarrow> []
                | c2 # r2 \<Rightarrow>
                    if \<not> is_continuation c2 then utf8_ignore r1
                    else
                      (case r2 of
                         [] \<Rightarrow> []
                       | c3 # r3 \<Rightarrow>
                           if is_continuation c3
                           then ((unat b - 0xF0) * 262144 + low_bits c1 * 4096
                                 + low_bits c2 * 64 + low_bits c3) # utf8_ignore r3
                           else utf8_ignore r2)))
      else utf8_ignore rest)"

text \<open>
  \<^verbatim>\<open>value.decode("utf-16le", errors="ignore")\<close>. The decoder reads units of two bytes, the
  low byte first. A unit outside \<^verbatim>\<open>D800..DFFF\<close> is a character; a high surrogate followed
  by a low surrogate is one character above \<^verbatim>\<open>U+FFFF\<close>; a surrogate that stands alone is
  dropped, and so is what the end of the input cuts off (a single last byte, or a high
  surrogate without a full unit behind it). The decoder never raises.
\<close>

fun utf16le_ignore :: "bytes \<Rightarrow> codepoints" where
  "utf16le_ignore (lo # hi # rest) =
     (let u = unat lo + 256 * unat hi in
      if u < 0xD800 \<or> 0xDFFF < u then u # utf16le_ignore rest
      else if 0xDC00 \<le> u then utf16le_ignore rest
      else
        (case rest of
           lo2 # hi2 # rest2 \<Rightarrow>
             (let u2 = unat lo2 + 256 * unat hi2 in
              if 0xDC00 \<le> u2 \<and> u2 \<le> 0xDFFF
              then (0x10000 + (u - 0xD800) * 1024 + (u2 - 0xDC00)) # utf16le_ignore rest2
              else utf16le_ignore rest)
         | _ \<Rightarrow> []))"
| "utf16le_ignore [b] = []"
| "utf16le_ignore [] = []"

text \<open>
  The three calls of the program. The result is an option so that the model keeps the
  \<^verbatim>\<open>try\<close> blocks of the source, \<open>None\<close> standing for a raised exception; with
  \<^verbatim>\<open>errors="ignore"\<close> none of the three decoders raises. Latin-1 maps every byte to the
  code point of the same number.
\<close>

definition decode_utf16le :: "bytes \<Rightarrow> codepoints option" where
  "decode_utf16le v = Some (utf16le_ignore v)"

definition decode_utf8 :: "bytes \<Rightarrow> codepoints option" where
  "decode_utf8 v = Some (utf8_ignore v)"

definition decode_latin1 :: "bytes \<Rightarrow> codepoints option" where
  "decode_latin1 v = Some (map unat v)"

subsection \<open>Decoding byte strings: \<^verbatim>\<open>_decode_bytes_value\<close>\<close>

text \<open>\<^verbatim>\<open>s.rstrip("\x00")\<close> removes the NUL characters at the end.\<close>

definition rstrip_nul :: "codepoints \<Rightarrow> codepoints" where
  "rstrip_nul s = rev (dropWhile (\<lambda>c. c = 0) (rev s))"

text \<open>
  \<^verbatim>\<open>value[:64].hex() + ("..." if len(value) > 64 else "")\<close>: two lower-case hexadecimal
  digits for each of the first 64 bytes, and the marker for a longer value.
\<close>

definition hex_digit :: "nat \<Rightarrow> char" where
  "hex_digit n = ''0123456789abcdef'' ! (n mod 16)"

definition hex_byte :: "byte \<Rightarrow> string" where
  "hex_byte b = [hex_digit (unat b div 16), hex_digit (unat b mod 16)]"

definition bytes_hex :: "bytes \<Rightarrow> string" where
  "bytes_hex bs = concat (map hex_byte bs)"

definition hex_preview :: "bytes \<Rightarrow> codepoints" where
  "hex_preview v = codepoints_of (bytes_hex (take 64 v) @ (if length v > 64 then ''...'' else []))"

text \<open>
  \<^verbatim>\<open>
  def _decode_bytes_value(tag, value):
      """Decode bytes safely for human-readable output. XP tags use UTF-16LE."""
      if tag in XP_TAGS:
          try:
              # XP tags are UTF-16LE and may be nul-terminated
              s = value.decode("utf-16le", errors="ignore")
              return s.rstrip("\x00")
          except Exception:
              pass
      # Try utf-8 then latin-1
      try:
          return value.decode("utf-8", errors="ignore")
      except Exception:
          try:
              return value.decode("latin-1", errors="ignore")
          except Exception:
              # Fallback to hex preview
              return value[:64].hex() + ("..." if len(value) > 64 else "")
  \<close>
\<close>

definition decode_fallbacks :: "bytes \<Rightarrow> codepoints" where
  "decode_fallbacks v =
     (case decode_utf8 v of
        Some s \<Rightarrow> s
      | None \<Rightarrow>
          (case decode_latin1 v of
             Some s \<Rightarrow> s
           | None \<Rightarrow> hex_preview v))"

definition decode_bytes_value :: "nat \<Rightarrow> bytes \<Rightarrow> codepoints" where
  "decode_bytes_value tag v =
     (if tag \<in> set XP_TAGS then
        (case decode_utf16le v of
           Some s \<Rightarrow> rstrip_nul s
         | None \<Rightarrow> decode_fallbacks v)
      else decode_fallbacks v)"

subsection \<open>Rationals and the value of a readable entry\<close>

text \<open>\<^verbatim>\<open>str(n)\<close> for an integer: its decimal digits, with a minus sign below zero.\<close>

function str_nat :: "nat \<Rightarrow> string" where
  "str_nat n = (if n < 10 then [char_of (48 + n)] else str_nat (n div 10) @ [char_of (48 + n mod 10)])"
  by pat_completeness auto
termination
  by (relation "measure (\<lambda>n. n)") auto

declare str_nat.simps [simp del]

definition str_int :: "int \<Rightarrow> string" where
  "str_int i = (if i < 0 then ''-'' @ str_nat (nat (- i)) else str_nat (nat i))"

text \<open>
  \<^verbatim>\<open>
  def _format_rational(value):
      if isinstance(value, tuple) and len(value) == 2 and all(isinstance(x, int) for x in value):
          num, den = value
          return f"{num}/{den}" if den else str(num)
      if isinstance(value, list) and value and isinstance(value[0], tuple):
          return [_format_rational(v) for v in value]
      return value
  \<close>
\<close>

fun format_rational :: "tag_value \<Rightarrow> tag_value" where
  "format_rational (VTuple [VInt num, VInt den]) =
     VStr (if den \<noteq> 0 then str_int num @ ''/'' @ str_int den else str_int num)"
| "format_rational (VList (VTuple t # vs)) = VList (map format_rational (VTuple t # vs))"
| "format_rational v = v"

text \<open>
  The value stored for one tag by \<^verbatim>\<open>exif_to_readable_dict\<close>, a decoded text or a
  formatted value:
  \<^verbatim>\<open>
          if isinstance(val, bytes):
              out[name] = _decode_bytes_value(tag, val)
          else:
              out[name] = _format_rational(val)
  \<close>
\<close>

datatype readable_entry = Decoded codepoints | Formatted tag_value

definition readable_value :: "nat \<Rightarrow> tag_value \<Rightarrow> readable_entry" where
  "readable_value tag val =
     (case val of
        VBytes b \<Rightarrow> Decoded (decode_bytes_value tag b)
      | _ \<Rightarrow> Formatted (format_rational val))"

section \<open>The AI heuristic detector (src/src/ai\_detect.py)\<close>

definition AI_KEYWORDS :: "string list" where
  "AI_KEYWORDS =
     [''stable diffusion'', ''sdxl'', ''comfyui'', ''invokeai'', ''automatic1111'',
      ''novelai'', ''midjourney'', ''dall-e'', ''dalle'', ''firefly'', ''adobe firefly'',
      ''generative fill'', ''leonardo'', ''ideogram'', ''runway'', ''mage.space'',
      ''controlnet'', ''ai'', ''ia'']"

definition CANDIDATE_TAGS :: "string list" where
  "CANDIDATE_TAGS =
     [''Software'', ''ImageDescription'', ''Artist'', ''Make'', ''Model'', ''UserComment'',
      ''MakerNote'', ''LensModel'', ''HostComputer'']"

text \<open>
  \<^verbatim>\<open>
  def _find_keywords(text, keywords):
      text_l = text.lower()
      found = []
      for kw in keywords:
          if kw in text_l:
              found.append(kw)
      return found
  \<close>
\<close>

fun find_loop :: "string \<Rightarrow> string list \<Rightarrow> string list" where
  "find_loop text_l [] = []"
| "find_loop text_l (kw # kws) =
     (if contains kw text_l then kw # find_loop text_l kws else find_loop text_l kws)"

definition find_keywords :: "string \<Rightarrow> string list \<Rightarrow> string list" where
  "find_keywords text keywords = find_loop (str_lower text) keywords"

subsection \<open>The scan of the readable document\<close>

text \<open>
  The readable document is a dictionary from group name to a dictionary from field name
  to a value; a Python dictionary lists its items in insertion order, so a group is a
  list of pairs. \<open>group_items\<close> is \<^verbatim>\<open>readable_exif.get(ifd_name, {}).items()\<close>.

  The values have any type (\<^verbatim>\<open>object\<close>); the code turns each into text with \<^verbatim>\<open>str(val)\<close>
  and skips the field when that raises. The conversion is the parameter \<open>str_of\<close> of the
  model, \<open>None\<close> where it raises.
\<close>

type_synonym 'v readable = "string \<rightharpoonup> (string \<times> 'v) list"

definition group_items :: "'v readable \<Rightarrow> string \<Rightarrow> (string \<times> 'v) list" where
  "group_items readable_exif ifd_name =
     (case readable_exif ifd_name of None \<Rightarrow> [] | Some items \<Rightarrow> items)"

text \<open>
  The text of a reason:
  \<^verbatim>\<open>f"{ifd_name}.{tag_name} contains: {', '.join(sorted(set(hits)))}"\<close>.
\<close>

definition reason_text :: "string \<Rightarrow> string \<Rightarrow> string list \<Rightarrow> string" where
  "reason_text ifd_name tag_name hits =
     ifd_name @ ''.'' @ tag_name @ '' contains: '' @ join '', '' (sort (remdups hits))"

text \<open>
  \<^verbatim>\<open>
  def detect_ai_from_exif_readable(readable_exif):
      reasons = []
      for ifd_name in ("0th", "Exif", "1st"):
          ifd = readable_exif.get(ifd_name, {})
          for tag_name, val in ifd.items():
              if tag_name not in CANDIDATE_TAGS:
                  continue
              try:
                  sval = str(val)
              except Exception:
                  continue
              hits = _find_keywords(sval, AI_KEYWORDS)
              if hits:
                  reasons.append(f"{ifd_name}.{tag_name} contains: ...")
      return (len(reasons) > 0, reasons)
  \<close>
  \<open>scan_items\<close> is the inner loop and \<open>scan_groups\<close> the outer one; both carry the list
  \<open>reasons\<close> that the code appends to.
\<close>

fun scan_items ::
  "('v \<Rightarrow> string option) \<Rightarrow> string \<Rightarrow> (string \<times> 'v) list \<Rightarrow> string list \<Rightarrow> string list" where
  "scan_items str_of ifd_name [] reasons = reasons"
| "scan_items str_of ifd_name ((tag_name, val) # rest) reasons =
     (if tag_name \<notin> set CANDIDATE_TAGS then scan_items str_of ifd_name rest reasons
      else case str_of val of
        None \<Rightarrow> scan_items str_of ifd_name rest reasons
      | Some sval \<Rightarrow>
          (let hits = find_keywords sval AI_KEYWORDS in
           if hits \<noteq> []
           then scan_items str_of ifd_name rest (reasons @ [reason_text ifd_name tag_name hits])
           else scan_items str_of ifd_name rest reasons))"

fun scan_groups ::
  "('v \<Rightarrow> string option) \<Rightarrow> 'v readable \<Rightarrow> string list \<Rightarrow> string list \<Rightarrow> string list" where
  "scan_groups str_of readable_exif [] reasons = reasons"
| "scan_groups str_of readable_exif (ifd_name # names) reasons =
     scan_groups str_of readable_exif names
       (scan_items str_of ifd_name (group_items readable_exif ifd_name) reasons)"

definition detect_ai_from_exif_readable ::
  "('v \<Rightarrow> string option) \<Rightarrow> 'v readable \<Rightarrow> bool \<times> string list" where
  "detect_ai_from_exif_readable str_of readable_exif =
     (let reasons = scan_groups str_of readable_exif [''0th'', ''Exif'', ''1st''] []
      in (length reasons > 0, reasons))"

subsection \<open>The streaming byte scan\<close>

text \<open>
  What the scan sees of a file: \<^verbatim>\<open>path.open("rb")\<close> raises, or it gives a handle whose
  successive \<^verbatim>\<open>f.read(chunk_size)\<close> calls each return bytes or raise. After the last
  listed read the file is at its end and \<^verbatim>\<open>read\<close> returns \<^verbatim>\<open>b""\<close>.
\<close>

datatype read_result = Data bytes | ReadError

datatype file_state = OpenError | Opened "read_result list"

definition chunk_size :: nat where
  "chunk_size = 1024 * 1024"

text \<open>
  A regular file that is read without failure: every read returns the next
  \<open>chunk_size\<close> bytes, the last one what is left.
\<close>

function chunks :: "nat \<Rightarrow> bytes \<Rightarrow> bytes list" where
  "chunks n bs = (if n = 0 \<or> bs = [] then [] else take n bs # chunks n (drop n bs))"
  by pat_completeness auto
termination
  by (relation "measure (\<lambda>(n, bs). length bs)") auto

declare chunks.simps [simp del]

definition regular_file :: "bytes \<Rightarrow> file_state" where
  "regular_file content = Opened (map Data (chunks chunk_size content))"

text \<open>
  The keys of the scan: the built-in keywords and the non-empty extra keywords, in lower
  case, each kept at its first occurrence.
  \<^verbatim>\<open>
      keywords = list(AI_KEYWORDS)
      if extra_keywords:
          keywords.extend([k for k in extra_keywords if isinstance(k, str) and k])
      seen = set()
      keys = []
      for k in keywords:
          kl = k.lower()
          if kl not in seen:
              seen.add(kl)
              keys.append(kl)
  \<close>
  This part stands before the \<^verbatim>\<open>try\<close> and raises nothing.
\<close>

fun dedupe_lower :: "pystr list \<Rightarrow> pystr list \<Rightarrow> pystr list" where
  "dedupe_lower seen [] = []"
| "dedupe_lower seen (k # ks) =
     (let kl = pystr_lower k in
      if kl \<notin> set seen then kl # dedupe_lower (kl # seen) ks else dedupe_lower seen ks)"

definition scan_keys :: "pystr list option \<Rightarrow> pystr list" where
  "scan_keys extra_keywords =
     dedupe_lower []
       (map pystr_of AI_KEYWORDS
        @ (case extra_keywords of
             None \<Rightarrow> []
           | Some extra \<Rightarrow> filter (\<lambda>k. k \<noteq> []) extra))"

text \<open>The message of a hit: \<^verbatim>\<open>f"bytes: found '{kw}'"\<close>.\<close>

definition found_msg :: "pystr \<Rightarrow> pystr" where
  "found_msg kw = pystr_of ''bytes: found '' @ [Latin1 (CHR 0x27)] @ kw @ [Latin1 (CHR 0x27)]"

text \<open>
  The loop over the keys for one window. It ends in one of three ways: every key was
  looked at (\<open>Completed\<close>); the function returned because \<^verbatim>\<open>max_matches\<close> was reached
  (\<open>Returned\<close>); or \<^verbatim>\<open>kw.encode("utf-8")\<close> raised (\<open>Raised\<close>), which leaves the loops for
  the handler of the enclosing \<^verbatim>\<open>try\<close>. The matches are those collected up to that point.
  \<^verbatim>\<open>
                  for kw in keys:
                      if kw.encode("utf-8") in low:
                          msg = f"bytes: found '{kw}'"
                          if msg not in matches:
                              matches.append(msg)
                              if len(matches) >= max_matches:
                                  return matches
  \<close>
\<close>

datatype key_loop = Completed | Returned | Raised

fun scan_window :: "bytes \<Rightarrow> pystr list \<Rightarrow> int \<Rightarrow> pystr list \<Rightarrow> pystr list \<times> key_loop" where
  "scan_window low [] max_matches matches = (matches, Completed)"
| "scan_window low (kw # kws) max_matches matches =
     (case encode_utf8 kw of
        None \<Rightarrow> (matches, Raised)
      | Some needle \<Rightarrow>
          if contains needle low then
            (if found_msg kw \<notin> set matches then
               (if int (length (matches @ [found_msg kw])) \<ge> max_matches
                then (matches @ [found_msg kw], Returned)
                else scan_window low kws max_matches (matches @ [found_msg kw]))
             else scan_window low kws max_matches matches)
          else scan_window low kws max_matches matches)"

text \<open>The overlap kept between two windows: \<^verbatim>\<open>window[-64:]\<close>.\<close>

definition overlap :: nat where
  "overlap = 64"

definition keep_overlap :: "bytes \<Rightarrow> bytes" where
  "keep_overlap window = drop (length window - overlap) window"

text \<open>
  The loop over the reads. An exception (of a read, or of the encoding of a key) ends the
  loop in the handler, which logs; the function then returns \<^verbatim>\<open>matches\<close> as it stands.
  \<^verbatim>\<open>
      matches = []
      try:
          with path.open("rb") as f:
              chunk_size = 1024 * 1024
              leftover = b""
              while True:
                  chunk = f.read(chunk_size)
                  if not chunk:
                      break
                  window = leftover + chunk
                  low = window.lower()
                  ... (the loop over the keys) ...
                  leftover = window[-64:]
      except Exception as e:
          logger.debug("Deep scan failed for %s: %s", path, e)
      return matches
  \<close>
\<close>

fun scan_chunks ::
  "pystr list \<Rightarrow> int \<Rightarrow> read_result list \<Rightarrow> bytes \<Rightarrow> pystr list \<Rightarrow> pystr list" where
  "scan_chunks keys max_matches [] leftover matches = matches"
| "scan_chunks keys max_matches (ReadError # reads) leftover matches = matches"
| "scan_chunks keys max_matches (Data chunk # reads) leftover matches =
     (if chunk = [] then matches
      else
        (let window = leftover @ chunk;
             low = bytes_lower window
         in case scan_window low keys max_matches matches of
              (matches', Returned) \<Rightarrow> matches'
            | (matches', Raised) \<Rightarrow> matches'
            | (matches', Completed) \<Rightarrow>
                scan_chunks keys max_matches reads (keep_overlap window) matches'))"

definition deep_scan_bytes :: "file_state \<Rightarrow> pystr list option \<Rightarrow> int \<Rightarrow> pystr list" where
  "deep_scan_bytes file extra_keywords max_matches =
     (let keys = scan_keys extra_keywords in
      case file of
        OpenError \<Rightarrow> []
      | Opened reads \<Rightarrow> scan_chunks keys max_matches reads [] [])"

section \<open>The batch orchestrator (src/src/actions.py, src/src/cli.py)\<close>

subsection \<open>Paths and the file system\<close>

text \<open>
  A \<^verbatim>\<open>pathlib.Path\<close> is modelled by its components and whether it starts at the root.
  \<open>path_name\<close> is \<^verbatim>\<open>p.name\<close> (empty when the path has no component), \<open>path_parent\<close> is
  \<^verbatim>\<open>p.parent\<close>, \<open>joinpath\<close> is \<^verbatim>\<open>p / q\<close> for a relative \<open>q\<close>, \<open>relative_to\<close> is
  \<^verbatim>\<open>p.relative_to(base)\<close>, which raises \<^verbatim>\<open>ValueError\<close> (here \<open>None\<close>) unless \<open>base\<close> is a
  prefix of \<open>p\<close>, and \<open>with_name\<close> is \<^verbatim>\<open>p.with_name(n)\<close>, which raises \<^verbatim>\<open>ValueError\<close>
  for a path without a name and for a name that is empty, a dot or holds a separator.
  \<open>path_of_string\<close> is the constructor \<^verbatim>\<open>Path(s)\<close>.
\<close>

datatype path = Path (is_absolute: bool) (parts: "string list")

definition path_name :: "path \<Rightarrow> string" where
  "path_name p = (if parts p = [] then [] else last (parts p))"

definition path_parent :: "path \<Rightarrow> path" where
  "path_parent p = Path (is_absolute p) (butlast (parts p))"

definition joinpath :: "path \<Rightarrow> path \<Rightarrow> path" where
  "joinpath p q = Path (is_absolute p) (parts p @ parts q)"

definition relative_to :: "path \<Rightarrow> path \<Rightarrow> path option" where
  "relative_to p base =
     (if is_absolute p = is_absolute base \<and> starts_with (parts base) (parts p)
      then Some (Path False (drop (length (parts base)) (parts p)))
      else None)"

definition with_name :: "path \<Rightarrow> string \<Rightarrow> path option" where
  "with_name p n =
     (if parts p = [] \<or> n = [] \<or> n = ''.'' \<or> CHR ''/'' \<in> set n then None
      else Some (Path (is_absolute p) (butlast (parts p) @ [n])))"

fun split_sep :: "string \<Rightarrow> string \<Rightarrow> string list" where
  "split_sep acc [] = [rev acc]"
| "split_sep acc (c # cs) =
     (if c = CHR ''/'' then rev acc # split_sep [] cs else split_sep (c # acc) cs)"

definition path_of_string :: "string \<Rightarrow> path" where
  "path_of_string s =
     Path (starts_with ''/'' s) (filter (\<lambda>c. c \<noteq> [] \<and> c \<noteq> ''.'') (split_sep [] s))"

text \<open>
  The state of the disk: the regular files with their contents, and the directories.
  The directory without components (the working directory, or the root) always exists.
\<close>

record filesystem =
  files :: "path \<rightharpoonup> bytes"
  dirs :: "path set"

datatype exn =
  FileExistsError | NotADirectoryError | FileNotFoundError | IsADirectoryError
| ValueError | LibraryError

definition is_dir :: "filesystem \<Rightarrow> path \<Rightarrow> bool" where
  "is_dir fs p = (parts p = [] \<or> p \<in> dirs fs)"

definition path_exists :: "filesystem \<Rightarrow> path \<Rightarrow> bool" where
  "path_exists fs p = (files fs p \<noteq> None \<or> is_dir fs p)"

text \<open>
  \<open>ancestors p\<close>: the path itself and every directory above it that has a component.
\<close>

definition ancestors :: "path \<Rightarrow> path list" where
  "ancestors p = map (\<lambda>n. Path (is_absolute p) (take n (parts p))) [1 ..< Suc (length (parts p))]"

text \<open>
  \<^verbatim>\<open>p.mkdir(parents=True, exist_ok=True)\<close> creates the directory and every missing
  directory above it. It raises when the path is a regular file
  (\<^verbatim>\<open>FileExistsError\<close>) or when a regular file stands where a directory above it is
  needed (\<^verbatim>\<open>NotADirectoryError\<close>); then nothing is created.
\<close>

definition mkdir_parents :: "path \<Rightarrow> filesystem \<Rightarrow> (exn + unit) \<times> filesystem" where
  "mkdir_parents p fs =
     (if files fs p \<noteq> None then (Inl FileExistsError, fs)
      else if list_ex (\<lambda>q. files fs q \<noteq> None) (ancestors p) then (Inl NotADirectoryError, fs)
      else (Inr (), fs\<lparr>dirs := dirs fs \<union> set (ancestors p)\<rparr>))"

text \<open>
  \<^verbatim>\<open>p.write_bytes(data)\<close> creates or replaces the regular file. It raises for a
  directory and where the directory that should hold the file does not exist.
\<close>

definition write_file :: "path \<Rightarrow> bytes \<Rightarrow> filesystem \<Rightarrow> (exn + unit) \<times> filesystem" where
  "write_file p data fs =
     (if is_dir fs p then (Inl IsADirectoryError, fs)
      else if \<not> is_dir fs (path_parent p) then (Inl FileNotFoundError, fs)
      else (Inr (), fs\<lparr>files := (files fs)(p \<mapsto> data)\<rparr>))"

subsection \<open>The image libraries\<close>

text \<open>
  The program reads and writes images through two libraries that are not part of it.
  They are parameters of the model, each a function of the bytes it is given; \<open>None\<close> is
  a raised exception.
  \<^item> \<open>image_format\<close>: the format name that \<^verbatim>\<open>PIL.Image.open\<close> reports for a file's bytes;
  \<^item> \<open>piexif_load\<close>: the dictionary that \<^verbatim>\<open>piexif.load\<close> decodes from a file's bytes;
  \<^item> \<open>piexif_dump\<close>: the metadata block that \<^verbatim>\<open>piexif.dump\<close> encodes;
  \<^item> \<open>piexif_insert_memory\<close>: the value that the two-argument call
    \<^verbatim>\<open>piexif.insert(block, data)\<close> returns for the block and the bytes of an image held in
    memory;
  \<^item> \<open>piexif_insert_file\<close>: the bytes that the three-argument call
    \<^verbatim>\<open>piexif.insert(block, source, dest)\<close> writes to the file \<^verbatim>\<open>dest\<close>, for the block and
    the bytes of the file \<^verbatim>\<open>source\<close>.

  The two calls of \<^verbatim>\<open>piexif.insert\<close> are different entry points of the library (one
  returns a value and touches no file, the other reads one file and writes another), so
  the model gives each its own parameter: nothing that holds of the one is assumed of the
  other.
\<close>

record libraries =
  image_format :: "bytes \<Rightarrow> string option"
  piexif_load :: "bytes \<Rightarrow> exif_dict option"
  piexif_dump :: "exif_dict \<Rightarrow> bytes option"
  piexif_insert_memory :: "bytes \<Rightarrow> bytes \<Rightarrow> bytes option"
  piexif_insert_file :: "bytes \<Rightarrow> bytes \<Rightarrow> bytes option"

definition SUPPORTED_FORMATS :: "string list" where
  "SUPPORTED_FORMATS = [''JPEG'', ''TIFF'', ''WEBP'']"

text \<open>
  \<^verbatim>\<open>get_image_info(path)["format"]\<close>: the format, or \<^verbatim>\<open>None\<close> when the image cannot be
  opened (the exception is caught).
\<close>

definition get_image_format :: "libraries \<Rightarrow> filesystem \<Rightarrow> path \<Rightarrow> string option" where
  "get_image_format lib fs p =
     (case files fs p of None \<Rightarrow> None | Some data \<Rightarrow> image_format lib data)"

definition is_format_supported_for_exif :: "string option \<Rightarrow> bool" where
  "is_format_supported_for_exif fmt =
     (case fmt of None \<Rightarrow> False | Some f \<Rightarrow> f \<in> set SUPPORTED_FORMATS)"

definition is_supported_for_write :: "libraries \<Rightarrow> filesystem \<Rightarrow> path \<Rightarrow> bool" where
  "is_supported_for_write lib fs p = is_format_supported_for_exif (get_image_format lib fs p)"

text \<open>
  \<^verbatim>\<open>
  def load_exif_dict(path):
      try:
          exif = piexif.load(str(path))
          for k in ("0th", "Exif", "GPS", "1st"):
              exif.setdefault(k, {})
          exif.setdefault("thumbnail", None)
          return exif
      except Exception as e:
          return None
  \<close>
\<close>

definition load_exif_dict :: "libraries \<Rightarrow> filesystem \<Rightarrow> path \<Rightarrow> exif_dict option" where
  "load_exif_dict lib fs p =
     (case files fs p of
        None \<Rightarrow> None
      | Some data \<Rightarrow>
          (case piexif_load lib data of
             None \<Rightarrow> None
           | Some exif \<Rightarrow>
               Some (exif\<lparr>groups := (\<lambda>k. setdefault (groups exif k) Map.empty),
                          thumbnail := setdefault (thumbnail exif) None\<rparr>)))"

subsection \<open>The transform plan\<close>

text \<open>
  \<^verbatim>\<open>ModifyOptions\<close>, the dataclass of src/src/actions.py. The field \<^verbatim>\<open>strip_identifying\<close>
  is named \<open>strip_identifying_opt\<close> here, since the function has the name.
\<close>

record ModifyOptions =
  strip_identifying_opt :: bool
  replace_camera :: "string option"
  replace_extended :: bool
  preserve_dates :: bool
  anonymize_dates :: bool
  remove_orientation :: bool
  in_place :: bool
  backup_ext :: "string option"
  out_dir :: "path option"
  dry_run :: bool
  base_input_dir :: "path option"

text \<open>
  The parsed command line (\<^verbatim>\<open>argparse.Namespace\<close>), with the fields that
  \<^verbatim>\<open>build_modify_options\<close> and \<^verbatim>\<open>validate_args\<close> read.
\<close>

record Namespace =
  arg_strip_identifying :: bool
  arg_replace_camera :: "string option"
  arg_replace_extended :: bool
  arg_preserve_dates :: bool
  arg_anonymize_dates :: bool
  arg_remove_orientation :: bool
  arg_in_place :: bool
  arg_backup_ext :: "string option"
  arg_out_dir :: "string option"
  arg_dry_run :: bool

text \<open>Python's truth value of an optional string: \<^verbatim>\<open>None\<close> and \<^verbatim>\<open>""\<close> are false.\<close>

definition truthy :: "string option \<Rightarrow> bool" where
  "truthy s = (case s of None \<Rightarrow> False | Some t \<Rightarrow> t \<noteq> [])"

text \<open>
  \<^verbatim>\<open>
  def build_modify_options(args, base_input_dir=None):
      return actions.ModifyOptions(
          strip_identifying=bool(args.strip_identifying or args.replace_camera
                                 or args.replace_extended),
          replace_camera=args.replace_camera,
          replace_extended=bool(args.replace_extended),
          preserve_dates=bool(args.preserve_dates and not args.anonymize_dates),
          anonymize_dates=bool(args.anonymize_dates),
          remove_orientation=bool(args.remove_orientation),
          in_place=bool(args.in_place),
          backup_ext=args.backup_ext if args.in_place else None,
          out_dir=Path(args.out_dir) if args.out_dir else None,
          dry_run=bool(args.dry_run),
          base_input_dir=base_input_dir)
  \<close>
\<close>

definition build_modify_options :: "Namespace \<Rightarrow> path option \<Rightarrow> ModifyOptions" where
  "build_modify_options args base =
     \<lparr>strip_identifying_opt =
        (arg_strip_identifying args \<or> truthy (arg_replace_camera args)
         \<or> arg_replace_extended args),
      replace_camera = arg_replace_camera args,
      replace_extended = arg_replace_extended args,
      preserve_dates = (arg_preserve_dates args \<and> \<not> arg_anonymize_dates args),
      anonymize_dates = arg_anonymize_dates args,
      remove_orientation = arg_remove_orientation args,
      in_place = arg_in_place args,
      backup_ext = (if arg_in_place args then arg_backup_ext args else None),
      out_dir = (if truthy (arg_out_dir args)
                 then map_option path_of_string (arg_out_dir args) else None),
      dry_run = arg_dry_run args,
      base_input_dir = base\<rparr>"

text \<open>
  The plan-level check of \<^verbatim>\<open>validate_args\<close>: a plan that asks for a modification is
  refused when it asks for both in-place writing and an output directory.
\<close>

definition modifications :: "Namespace \<Rightarrow> bool" where
  "modifications args =
     (arg_strip_identifying args \<or> truthy (arg_replace_camera args) \<or> arg_replace_extended args)"

definition valid_plan :: "Namespace \<Rightarrow> bool" where
  "valid_plan args =
     (\<not> (modifications args \<and> arg_in_place args \<and> truthy (arg_out_dir args)))"

subsection \<open>Destination and writing\<close>

text \<open>
  \<^verbatim>\<open>
  def make_output_path(src, opts):
      if opts.in_place or not opts.out_dir:
          return src
      out_dir = opts.out_dir
      out_dir.mkdir(parents=True, exist_ok=True)
      if opts.base_input_dir and src.is_absolute():
          try:
              rel = src.relative_to(opts.base_input_dir)
          except Exception:
              rel = src.name
      else:
          rel = src.name
      dest = out_dir / rel
      dest.parent.mkdir(parents=True, exist_ok=True)
      return dest
  \<close>
  A name is one component; joining the empty name gives the directory itself.
\<close>

definition name_path :: "string \<Rightarrow> path" where
  "name_path n = Path False (if n = [] then [] else [n])"

definition make_output_path ::
  "path \<Rightarrow> ModifyOptions \<Rightarrow> filesystem \<Rightarrow> (exn + path) \<times> filesystem" where
  "make_output_path src opts fs =
     (if in_place opts then (Inr src, fs)
      else case out_dir opts of
        None \<Rightarrow> (Inr src, fs)
      | Some od \<Rightarrow>
          (case mkdir_parents od fs of
             (Inl e, fs1) \<Rightarrow> (Inl e, fs1)
           | (Inr _, fs1) \<Rightarrow>
               (let rel = (case base_input_dir opts of
                             None \<Rightarrow> name_path (path_name src)
                           | Some base \<Rightarrow>
                               if is_absolute src then
                                 (case relative_to src base of
                                    Some r \<Rightarrow> r
                                  | None \<Rightarrow> name_path (path_name src))
                               else name_path (path_name src));
                    dest = joinpath od rel
                in case mkdir_parents (path_parent dest) fs1 of
                     (Inl e, fs2) \<Rightarrow> (Inl e, fs2)
                   | (Inr _, fs2) \<Rightarrow> (Inr dest, fs2))))"

text \<open>
  \<^verbatim>\<open>shutil.copy2(dest, backup)\<close> inside \<^verbatim>\<open>write_bytes\<close>: every exception is caught and
  logged, so a copy that fails leaves the disk as it was.
\<close>

definition copy_backup :: "path \<Rightarrow> path \<Rightarrow> filesystem \<Rightarrow> filesystem" where
  "copy_backup dest backup fs =
     (case files fs dest of
        None \<Rightarrow> fs
      | Some data \<Rightarrow> snd (write_file backup data fs))"

text \<open>
  \<^verbatim>\<open>
  def write_bytes(dest, data, opts):
      if opts.in_place:
          if opts.backup_ext:
              backup = dest.with_name(dest.name + (opts.backup_ext or ""))
              try:
                  if dest.exists():
                      shutil.copy2(dest, backup)
              except Exception as e:
                  logger.warning(...)
          if not opts.dry_run:
              dest.write_bytes(data)
      else:
          if not opts.dry_run:
              dest.parent.mkdir(parents=True, exist_ok=True)
              dest.write_bytes(data)
  \<close>
\<close>

definition write_bytes ::
  "path \<Rightarrow> bytes \<Rightarrow> ModifyOptions \<Rightarrow> filesystem \<Rightarrow> (exn + unit) \<times> filesystem" where
  "write_bytes dest data opts fs =
     (if in_place opts then
        (case (case backup_ext opts of
                 None \<Rightarrow> (Inr (), fs)
               | Some ext \<Rightarrow>
                   if ext = [] then (Inr (), fs)
                   else (case with_name dest (path_name dest @ ext) of
                           None \<Rightarrow> (Inl ValueError, fs)
                         | Some backup \<Rightarrow>
                             (Inr (), if path_exists fs dest then copy_backup dest backup fs
                                      else fs))) of
           (Inl e, fs1) \<Rightarrow> (Inl e, fs1)
         | (Inr _, fs1) \<Rightarrow>
             if \<not> dry_run opts then write_file dest data fs1 else (Inr (), fs1))
      else if \<not> dry_run opts then
        (case mkdir_parents (path_parent dest) fs of
           (Inl e, fs1) \<Rightarrow> (Inl e, fs1)
         | (Inr _, fs1) \<Rightarrow> write_file dest data fs1)
      else (Inr (), fs))"

text \<open>
  \<^verbatim>\<open>
  def write_exif_to_image_bytes(source_path, exif):
      exif = ensure_exif_structure(exif)
      exif_bytes = piexif.dump(exif)
      data = Path(source_path).read_bytes()
      return piexif.insert(exif_bytes, data)
  \<close>
\<close>

definition write_exif_to_image_bytes ::
  "libraries \<Rightarrow> filesystem \<Rightarrow> path \<Rightarrow> exif_dict \<Rightarrow> exn + bytes" where
  "write_exif_to_image_bytes lib fs src exif0 =
     (let exif = ensure_exif_structure (Some exif0) in
      case piexif_dump lib exif of
        None \<Rightarrow> Inl LibraryError
      | Some exif_bytes \<Rightarrow>
          (case files fs src of
             None \<Rightarrow> Inl FileNotFoundError
           | Some data \<Rightarrow>
               (case piexif_insert_memory lib exif_bytes data of
                  None \<Rightarrow> Inl LibraryError
                | Some out \<Rightarrow> Inr out)))"

text \<open>
  \<^verbatim>\<open>
  def write_exif_to_file(source_path, dest_path, exif):
      exif = ensure_exif_structure(exif)
      exif_bytes = piexif.dump(exif)
      piexif.insert(exif_bytes, str(source_path), str(dest_path))
  \<close>
  The library opens the source file itself and writes the destination file itself.
\<close>

definition write_exif_to_file ::
  "libraries \<Rightarrow> path \<Rightarrow> path \<Rightarrow> exif_dict \<Rightarrow> filesystem \<Rightarrow> (exn + unit) \<times> filesystem" where
  "write_exif_to_file lib src dest exif0 fs =
     (let exif = ensure_exif_structure (Some exif0) in
      case piexif_dump lib exif of
        None \<Rightarrow> (Inl LibraryError, fs)
      | Some exif_bytes \<Rightarrow>
          (case files fs src of
             None \<Rightarrow> (Inl FileNotFoundError, fs)
           | Some data \<Rightarrow>
               (case piexif_insert_file lib exif_bytes data of
                  None \<Rightarrow> (Inl LibraryError, fs)
                | Some out \<Rightarrow> write_file dest out fs)))"

subsection \<open>\<^verbatim>\<open>apply_strip_and_replace\<close>\<close>

text \<open>
  The function returns the triple \<^verbatim>\<open>(success, error_msg, dest_path)\<close>. The error
  messages are formatted strings; the model keeps which message it is, the path in it
  and the exception it reports.
\<close>

datatype error_msg =
  Format_not_supported path
| Failed_to_write_modified_file path exn
| Failed_to_dump_insert path exn

type_synonym outcome = "bool \<times> error_msg option \<times> path option"

text \<open>
  The changes to the dictionary, between loading and writing:
  \<^verbatim>\<open>
      if opts.strip_identifying or opts.replace_camera or opts.replace_extended:
          exif = exif_utils.strip_identifying(exif,
              preserve_dates=opts.preserve_dates, anonymize_dates=opts.anonymize_dates,
              remove_orientation=opts.remove_orientation)
      if opts.replace_camera:
          profile, make, model = exif_utils.get_default_camera_profile(opts.replace_camera)
          if opts.replace_extended:
              exif = exif_utils.apply_extended_camera_profile(
                  exif, profile=profile, make=make, model=model)
          else:
              exif = exif_utils.set_camera_make_model(exif, make=make, model=model)
  \<close>
\<close>

definition strip_step :: "ModifyOptions \<Rightarrow> exif_dict \<Rightarrow> exif_dict" where
  "strip_step opts exif =
     (if strip_identifying_opt opts \<or> truthy (replace_camera opts) \<or> replace_extended opts
      then strip_identifying exif (preserve_dates opts) (anonymize_dates opts)
             (remove_orientation opts)
      else exif)"

definition replace_step :: "ModifyOptions \<Rightarrow> exif_dict \<Rightarrow> exif_dict" where
  "replace_step opts exif =
     (if truthy (replace_camera opts) then
        (case get_default_camera_profile (replace_camera opts) of
           (profile, cam_make, cam_model) \<Rightarrow>
             if replace_extended opts
             then apply_extended_camera_profile exif profile cam_make cam_model
             else set_camera_make_model exif cam_make cam_model)
      else exif)"

definition transform_exif :: "ModifyOptions \<Rightarrow> exif_dict \<Rightarrow> exif_dict" where
  "transform_exif opts exif = replace_step opts (strip_step opts exif)"

text \<open>
  The dictionary that the function starts from:
  \<^verbatim>\<open>exif = exif_utils.load_exif_dict(src) or exif_utils.ensure_exif_structure({})\<close>.
\<close>

definition loaded_exif :: "libraries \<Rightarrow> filesystem \<Rightarrow> path \<Rightarrow> exif_dict" where
  "loaded_exif lib fs src =
     (case load_exif_dict lib fs src of
        Some e \<Rightarrow> e
      | None \<Rightarrow> ensure_exif_structure (Some empty_dict))"

text \<open>
  What the function does with the changed dictionary \<^verbatim>\<open>exif\<close>, from the dry-run test to
  its end:
  \<^verbatim>\<open>
      if opts.dry_run:
          dest = make_output_path(src, opts)
          logger.info("Dry-run: would write modified EXIF to %s", dest)
          return (True, None, dest)
      dest = make_output_path(src, opts)
      if not opts.dry_run and (opts.out_dir and dest != src):
          try:
              dest.parent.mkdir(parents=True, exist_ok=True)
              exif_utils.write_exif_to_file(src, dest, exif)
              return (True, None, dest)
          except Exception as e:
              return (False, f"Failed to write modified file {dest}: {e}", dest)
      try:
          data_out = exif_utils.write_exif_to_image_bytes(src, exif)
      except Exception as e:
          return (False, f"Failed to dump/insert EXIF for {src}: {e}", None)
      try:
          write_bytes(dest, data_out, opts)
          return (True, None, dest)
      except Exception as e:
          return (False, f"Failed to write modified file {dest}: {e}", dest)
  \<close>
  The result is \<open>Inl\<close> where an exception leaves the function: the two calls of
  \<^verbatim>\<open>make_output_path\<close> stand outside every \<^verbatim>\<open>try\<close>.
\<close>

definition write_modified ::
  "libraries \<Rightarrow> path \<Rightarrow> ModifyOptions \<Rightarrow> exif_dict \<Rightarrow> filesystem
   \<Rightarrow> (exn + outcome) \<times> filesystem" where
  "write_modified lib src opts exif fs =
     (if dry_run opts then
        (case make_output_path src opts fs of
           (Inl e, fs1) \<Rightarrow> (Inl e, fs1)
         | (Inr dest, fs1) \<Rightarrow> (Inr (True, None, Some dest), fs1))
      else
        (case make_output_path src opts fs of
           (Inl e, fs1) \<Rightarrow> (Inl e, fs1)
         | (Inr dest, fs1) \<Rightarrow>
             if \<not> dry_run opts \<and> out_dir opts \<noteq> None \<and> dest \<noteq> src then
               (case mkdir_parents (path_parent dest) fs1 of
                  (Inl e, fs2) \<Rightarrow>
                    (Inr (False, Some (Failed_to_write_modified_file dest e), Some dest), fs2)
                | (Inr _, fs2) \<Rightarrow>
                    (case write_exif_to_file lib src dest exif fs2 of
                       (Inl e, fs3) \<Rightarrow>
                         (Inr (False, Some (Failed_to_write_modified_file dest e),
                               Some dest), fs3)
                     | (Inr _, fs3) \<Rightarrow> (Inr (True, None, Some dest), fs3)))
             else
               (case write_exif_to_image_bytes lib fs1 src exif of
                  Inl e \<Rightarrow> (Inr (False, Some (Failed_to_dump_insert src e), None), fs1)
                | Inr data_out \<Rightarrow>
                    (case write_bytes dest data_out opts fs1 of
                       (Inl e, fs2) \<Rightarrow>
                         (Inr (False, Some (Failed_to_write_modified_file dest e),
                               Some dest), fs2)
                     | (Inr _, fs2) \<Rightarrow> (Inr (True, None, Some dest), fs2)))))"

text \<open>
  \<^verbatim>\<open>
  def apply_strip_and_replace(src, opts):
      if not is_supported_for_write(src):
          return (False, f"Format not supported for EXIF write: {src}", None)
      exif = exif_utils.load_exif_dict(src) or exif_utils.ensure_exif_structure({})
      ... (the changes to the dictionary, above) ...
      ... (the writing, above) ...
  \<close>
\<close>

definition apply_strip_and_replace ::
  "libraries \<Rightarrow> path \<Rightarrow> ModifyOptions \<Rightarrow> filesystem \<Rightarrow> (exn + outcome) \<times> filesystem" where
  "apply_strip_and_replace lib src opts fs =
     (if \<not> is_supported_for_write lib fs src
      then (Inr (False, Some (Format_not_supported src), None), fs)
      else
        let exif = loaded_exif lib fs src;
            exif = transform_exif opts exif
        in write_modified lib src opts exif fs)"


subsection \<open>Requests and example inputs\<close>








text \<open>
  A dry run into an output directory: the command line
  \<^verbatim>\<open>--file photo.jpg --strip-identifying --out-dir out --dry-run\<close>, a disk that holds the
  one image and no directory \<^verbatim>\<open>out\<close>, and libraries that report the image as a JPEG
  without metadata.
\<close>

definition dry_args :: Namespace where
  "dry_args =
     \<lparr>arg_strip_identifying = True, arg_replace_camera = None,
      arg_replace_extended = False, arg_preserve_dates = True, arg_anonymize_dates = False,
      arg_remove_orientation = False, arg_in_place = False, arg_backup_ext = Some ''.bak'',
      arg_out_dir = Some ''out'', arg_dry_run = True\<rparr>"

definition photo :: path where
  "photo = Path False [''photo.jpg'']"

definition jpeg_only :: libraries where
  "jpeg_only =
     \<lparr>image_format = (\<lambda>data. Some ''JPEG''), piexif_load = (\<lambda>data. None),
      piexif_dump = (\<lambda>exif. None), piexif_insert_memory = (\<lambda>block data. None),
      piexif_insert_file = (\<lambda>block data. None)\<rparr>"

definition one_photo :: filesystem where
  "one_photo = \<lparr>files = [photo \<mapsto> [255, 216, 255, 217]], dirs = {}\<rparr>"

text \<open>
  A file whose last seven bytes are the keyword \<^verbatim>\<open>firefly\<close>, with the first read ending
  after \<^verbatim>\<open>fire\<close>.
\<close>

definition split_file :: bytes where
  "split_file = replicate (chunk_size - 4) 0 @ utf8_bytes ''firefly''"

text \<open>
  The windows that the byte scan forms from a sequence of reads (each the overlap kept
  from the window before, followed by the chunk), for stating what the scan saw.
\<close>

fun windows :: "read_result list \<Rightarrow> bytes \<Rightarrow> bytes list" where
  "windows [] leftover = []"
| "windows (ReadError # reads) leftover = []"
| "windows (Data chunk # reads) leftover =
     (if chunk = [] then []
      else (leftover @ chunk) # windows reads (keep_overlap (leftover @ chunk)))"

text \<open>
  Inputs of the byte scan: a keyword of 66 bytes given as an extra keyword and a file that
  ends with it, the first read ending after its 65th byte; a file that starts with
  \<^verbatim>\<open>sdxl\<close> and ends with \<^verbatim>\<open>firefly\<close>, the first read ending after \<^verbatim>\<open>fire\<close>; and a
  file whose first read returns a full chunk that starts with \<^verbatim>\<open>sdxl\<close> and whose second
  read fails.
\<close>

definition long_kw :: string where
  "long_kw = replicate 66 (CHR ''x'')"

definition long_kw_file :: bytes where
  "long_kw_file = replicate (chunk_size - 65) 0 @ utf8_bytes long_kw"

definition early_stop_file :: bytes where
  "early_stop_file =
     utf8_bytes ''sdxl'' @ replicate (chunk_size - 8) 0 @ utf8_bytes ''firefly''"

text \<open>
  An extra keyword that cannot be encoded: the text of the one code point \<^verbatim>\<open>U+D800\<close>
  (\<^verbatim>\<open>"\ud800"\<close> in Python). A key is encodable when \<^verbatim>\<open>kw.encode("utf-8")\<close> returns.
\<close>

definition lone_surrogate :: pystr where
  "lone_surrogate = [Surrogate 0]"

definition encodable :: "pystr \<Rightarrow> bool" where
  "encodable k = (encode_utf8 k \<noteq> None)"

definition failing_file :: file_state where
  "failing_file = Opened [Data (utf8_bytes ''sdxl'' @ replicate (chunk_size - 4) 0), ReadError]"

subsection \<open>The readable scan, in the words of the specification\<close>

text \<open>
  What the specification says of one examined field: a field outside the allow-list, or
  one whose value has no text, or whose text (in lower case) holds no keyword, gives no
  reason; any other field gives one reason that names the group, the field and the
  matching keywords, each once, sorted.
\<close>

definition field_reason :: "('v \<Rightarrow> string option) \<Rightarrow> string \<Rightarrow> string \<times> 'v \<Rightarrow> string option" where
  "field_reason str_of ifd_name item =
     (case item of (tag_name, val) \<Rightarrow>
        if tag_name \<in> set CANDIDATE_TAGS then
          (case str_of val of
             None \<Rightarrow> None
           | Some sval \<Rightarrow>
               if filter (\<lambda>kw. contains kw (str_lower sval)) AI_KEYWORDS = [] then None
               else Some (ifd_name @ ''.'' @ tag_name @ '' contains: ''
                          @ join '', '' (sort (remdups
                              (filter (\<lambda>kw. contains kw (str_lower sval)) AI_KEYWORDS)))))
        else None)"

text \<open>
  The part of a readable document that the scan may look at: the allow-listed fields of
  the groups \<^verbatim>\<open>"0th"\<close>, \<^verbatim>\<open>"Exif"\<close> and \<^verbatim>\<open>"1st"\<close>.
\<close>

definition examined :: "'v readable \<Rightarrow> 'v readable" where
  "examined readable_exif =
     (\<lambda>k. if k = ''0th'' \<or> k = ''Exif'' \<or> k = ''1st''
          then Some (filter (\<lambda>(tag_name, val). tag_name \<in> set CANDIDATE_TAGS)
                       (group_items readable_exif k))
          else None)"

text \<open>The document of the scenario: the primary group holds the one field Software.\<close>

definition firefly_doc :: "string readable" where
  "firefly_doc = [''0th'' \<mapsto> [(''Software'', ''Adobe Firefly 2.1'')]]"

section \<open>Properties of the text operations\<close>

lemma starts_with_iff: "starts_with n h \<longleftrightarrow> (\<exists>s. h = n @ s)"
  by (induction n h rule: starts_with.induct) auto

lemma contains_iff: "contains n h \<longleftrightarrow> (\<exists>p s. h = p @ n @ s)"
proof (induction h)
  case Nil
  then show ?case by auto
next
  case (Cons y ys)
  show ?case
  proof
    assume "contains n (y # ys)"
    then consider "starts_with n (y # ys)" | "contains n ys" by auto
    then show "\<exists>p s. y # ys = p @ n @ s"
    proof cases
      case 1
      then obtain s where "y # ys = n @ s" by (auto simp: starts_with_iff)
      then have "y # ys = [] @ n @ s" by simp
      then show ?thesis by blast
    next
      case 2
      with Cons obtain p s where "ys = p @ n @ s" by auto
      then have "y # ys = (y # p) @ n @ s" by simp
      then show ?thesis by blast
    qed
  next
    assume "\<exists>p s. y # ys = p @ n @ s"
    then obtain p s where ps: "y # ys = p @ n @ s" by auto
    show "contains n (y # ys)"
    proof (cases p)
      case Nil
      with ps have "starts_with n (y # ys)" by (auto simp: starts_with_iff)
      then show ?thesis by simp
    next
      case (Cons a p')
      with ps have "ys = p' @ n @ s" by simp
      with Cons.IH have "contains n ys" by auto
      then show ?thesis by simp
    qed
  qed
qed

lemma contains_set: "contains n h \<Longrightarrow> set n \<subseteq> set h"
  by (auto simp: contains_iff)

lemma contains_length: "contains n h \<Longrightarrow> length n \<le> length h"
  by (auto simp: contains_iff)

lemma contains_count: "contains n h \<Longrightarrow> length (filter P n) \<le> length (filter P h)"
  by (auto simp: contains_iff)

lemma contains_prefix: "contains n (n @ r)"
  unfolding contains_iff by (rule exI [of _ "[]"]) auto

text \<open>The overlap lemma on lists.\<close>

lemma contains_window_or_overlap:
  assumes "contains n (w @ r)" and "length n \<le> Suc k"
  shows "contains n w \<or> contains n (drop (length w - k) w @ r)"
proof -
  from assms obtain p s where ps: "w @ r = p @ n @ s" by (auto simp: contains_iff)
  show ?thesis
  proof (cases "length p + length n \<le> length w")
    case True
    have "take (length p + length n) (w @ r) = take (length p + length n) (p @ n @ s)"
      using ps by simp
    then have "take (length p + length n) w = p @ n" using True by simp
    then have "w = p @ n @ drop (length p + length n) w"
      by (metis append_take_drop_id append.assoc)
    then show ?thesis unfolding contains_iff by blast
  next
    case False
    let ?d = "length w - k"
    have d: "?d \<le> length p" "?d \<le> length w" using False assms(2) by auto
    have "drop ?d (w @ r) = drop ?d (p @ n @ s)" using ps by simp
    then have "drop ?d w @ r = drop ?d p @ n @ s" using d by simp
    then show ?thesis unfolding contains_iff by blast
  qed
qed


section \<open>Properties of the redaction\<close>

lemma ensure_exif_structure_present:
  "groups (ensure_exif_structure arg) k \<noteq> None"
  by (simp add: ensure_exif_structure_def setdefault_def Let_def split: option.splits)

lemma remove_loop_eq:
  "remove_loop ts target = (\<lambda>t. if t \<in> set ts then None else target t)"
  by (induction ts arbitrary: target) (auto simp: fun_eq_iff)

lemma groups_strip_identifying:
  "groups (strip_identifying e pd ad ro) k =
     (case k of
        IFD_GPS \<Rightarrow> Some Map.empty
      | IFD_1st \<Rightarrow> Some Map.empty
      | IFD_0th \<Rightarrow> Some (\<lambda>t. if t \<in> set (tags_0th_remove ro) \<or> ((ad \<or> \<not> pd) \<and> t = ImageIFD_DateTime)
                            then None else get_group e IFD_0th t)
      | IFD_Exif \<Rightarrow> Some (\<lambda>t. if t \<in> set tags_exif_remove
                                 \<or> ((ad \<or> \<not> pd) \<and> (t = ExifIFD_DateTimeOriginal \<or> t = ExifIFD_DateTimeDigitized))
                             then None else get_group e IFD_Exif t))"
  by (cases k)
     (auto simp: strip_identifying_def ensure_exif_structure_def setdefault_def Let_def
        set_group_def remove_tags_def remove_loop_eq pop_dates_def pop_tag_def get_group_def
        fun_eq_iff
      split: option.splits)

lemma thumbnail_strip_identifying:
  "thumbnail (strip_identifying e pd ad ro) = Some None"
  by (simp add: strip_identifying_def Let_def)

lemma more_strip_identifying:
  "exif_dict.more (strip_identifying e pd ad ro) = exif_dict.more e"
  by (simp add: strip_identifying_def Let_def ensure_exif_structure_def set_group_def
      remove_tags_def pop_dates_def pop_tag_def split: option.splits)

text \<open>
  Claim C3. For every input dictionary and every choice of the three flags, after
  \<open>strip_identifying\<close> the location group (\<^verbatim>\<open>"GPS"\<close>) is the empty dictionary, the
  thumbnail group (\<^verbatim>\<open>"1st"\<close>) is the empty dictionary and the thumbnail blob is \<^verbatim>\<open>None\<close>:
  the thumbnail's group and its blob are cleared together.
\<close>

theorem strip_identifying_clears_location_and_thumbnail:
  "groups (strip_identifying e preserve anonymize no_orientation) IFD_GPS
     = Some Map.empty
   \<and> groups (strip_identifying e preserve anonymize no_orientation) IFD_1st
     = Some Map.empty
   \<and> thumbnail (strip_identifying e preserve anonymize no_orientation)
     = Some None"
  by (simp add: groups_strip_identifying thumbnail_strip_identifying)

text \<open>
  Claim C4. \<open>strip_identifying\<close> is idempotent: with the three flags fixed, applying it
  to its own result gives that result again, for every input dictionary.
\<close>

theorem strip_identifying_idempotent:
  "strip_identifying (strip_identifying e preserve anonymize no_orientation)
       preserve anonymize no_orientation
     = strip_identifying e preserve anonymize no_orientation"
proof (rule exif_dict.equality)
  let ?once = "strip_identifying e preserve anonymize no_orientation"
  let ?twice = "strip_identifying ?once preserve anonymize no_orientation"
  show "groups ?twice = groups ?once"
  proof
    fix k
    show "groups ?twice k = groups ?once k"
      by (cases k) (auto simp: groups_strip_identifying get_group_def fun_eq_iff)
  qed
next
  show "thumbnail (strip_identifying
                     (strip_identifying e preserve anonymize no_orientation)
                     preserve anonymize no_orientation)
          = thumbnail (strip_identifying e preserve anonymize no_orientation)"
    by (simp add: thumbnail_strip_identifying)
qed (simp add: more_strip_identifying)

section \<open>Properties of the camera profile\<close>

lemma str_lower_profile_keys:
  "str_lower ''iphone'' = ''iphone''"
  "str_lower ''iphone'' \<noteq> ''canon''"
  "str_lower ''canon'' = ''canon''"
  "str_lower ''custom'' \<noteq> ''canon''"
  "str_lower ''custom'' \<noteq> ''iphone''"
  by (simp_all add: str_lower_def lower_char_def)

lemma groups_set_camera_make_model:
  "groups (set_camera_make_model e mk mdl) k =
     Some (if k = IFD_0th
           then (get_group e IFD_0th)(ImageIFD_Make \<mapsto> VStr mk, ImageIFD_Model \<mapsto> VStr mdl)
           else get_group e k)"
  by (simp add: set_camera_make_model_def ensure_exif_structure_def setdefault_def Let_def
      set_tag_def set_group_def get_group_def split: option.splits)


text \<open>
  The whole effect of \<open>apply_extended_camera_profile\<close> on the four groups: the tags it
  assigns, every other tag as it was.
\<close>

lemma groups_apply_extended_camera_profile:
  "groups (apply_extended_camera_profile e profile mk mdl) k =
     Some (case k of
        IFD_0th \<Rightarrow> (get_group e IFD_0th)
           (ImageIFD_Make \<mapsto> VStr mk, ImageIFD_Model \<mapsto> VStr mdl,
            ImageIFD_Software \<mapsto>
              VStr (if str_lower profile = ''canon'' then ''Canon Firmware''
                    else if str_lower profile = ''iphone'' then ''Apple iOS''
                    else ''Camera System''))
      | IFD_Exif \<Rightarrow>
          (let g = (get_group e IFD_Exif)
             (ExifIFD_FNumber \<mapsto> VTuple [VInt 28, VInt 10],
              ExifIFD_ExposureTime \<mapsto> VTuple [VInt 1, VInt 125],
              ExifIFD_FocalLength \<mapsto> VTuple [VInt 50, VInt 1],
              ExifIFD_ISOSpeedRatings \<mapsto> VInt 100)
           in if str_lower profile = ''canon''
              then g(ExifIFD_LensMake \<mapsto> VStr ''Canon'',
                     ExifIFD_LensModel \<mapsto> VStr ''EF 50mm f/1.8'')
              else if str_lower profile = ''iphone''
              then g(ExifIFD_LensMake \<mapsto> VStr ''Apple'',
                     ExifIFD_LensModel \<mapsto> VStr ''iPhone 14 Pro back camera 24mm f/1.78'')
              else g)
      | IFD_GPS \<Rightarrow> get_group e IFD_GPS
      | IFD_1st \<Rightarrow> get_group e IFD_1st)"
  by (cases k)
     (simp_all add: apply_extended_camera_profile_def groups_set_camera_make_model Let_def
        set_tag_def set_group_def get_group_def ensure_exif_structure_def setdefault_def
      split: option.splits)

text \<open>
  Claim C8, as stated, fails on the generic fallback: the claim has the function set the
  lens make and model for every profile key. For the key \<^verbatim>\<open>"custom"\<close> (the key that
  \<open>get_default_camera_profile\<close> gives a literal \<^verbatim>\<open>"Sony|A7IV"\<close>) and a document without
  metadata, the result holds no lens make and no lens model; only the software string of
  the fallback is set.
\<close>

theorem apply_extended_camera_profile_generic_sets_no_lens:
  "get_group (apply_extended_camera_profile (ensure_exif_structure None)
               ''custom'' ''Sony'' ''A7IV'') IFD_Exif ExifIFD_LensMake = None
   \<and> get_group (apply_extended_camera_profile (ensure_exif_structure None)
               ''custom'' ''Sony'' ''A7IV'') IFD_Exif ExifIFD_LensModel = None
   \<and> get_group (apply_extended_camera_profile (ensure_exif_structure None)
               ''custom'' ''Sony'' ''A7IV'') IFD_0th ImageIFD_Software
       = Some (VStr ''Camera System'')"
  by (simp add: get_group_def groups_apply_extended_camera_profile tag_defs Let_def
      str_lower_profile_keys ensure_exif_structure_def empty_dict_def setdefault_def)

text \<open>
  Claim C8, amended. For every document and every profile key (no key fails),
  \<open>apply_extended_camera_profile\<close> sets the make and the model of the primary group to the
  given strings, sets in the capture group the aperture to 28/10, the exposure time to
  1/125, the focal length to 50/1 and the sensitivity to 100, and sets the software string
  by the profile table: \<^verbatim>\<open>"Canon Firmware"\<close> for the key \<^verbatim>\<open>canon\<close>, \<^verbatim>\<open>"Apple iOS"\<close> for the
  key \<^verbatim>\<open>iphone\<close> (both compared in lower case), \<^verbatim>\<open>"Camera System"\<close> for every other key.
  The lens make and model are set for the two named profiles only; for every other key
  they stay as they were in the document. With the key \<^verbatim>\<open>"iphone"\<close> the lens model is the
  fixed Apple lens string and the software is \<^verbatim>\<open>"Apple iOS"\<close>. The location group is the
  one of the input.
\<close>

theorem apply_extended_camera_profile_sets:
  "get_group (apply_extended_camera_profile e profile mk mdl) IFD_0th ImageIFD_Make
     = Some (VStr mk)
   \<and> get_group (apply_extended_camera_profile e profile mk mdl) IFD_0th ImageIFD_Model
     = Some (VStr mdl)
   \<and> get_group (apply_extended_camera_profile e profile mk mdl) IFD_Exif ExifIFD_FNumber
     = Some (VTuple [VInt 28, VInt 10])
   \<and> get_group (apply_extended_camera_profile e profile mk mdl) IFD_Exif ExifIFD_ExposureTime
     = Some (VTuple [VInt 1, VInt 125])
   \<and> get_group (apply_extended_camera_profile e profile mk mdl) IFD_Exif ExifIFD_FocalLength
     = Some (VTuple [VInt 50, VInt 1])
   \<and> get_group (apply_extended_camera_profile e profile mk mdl) IFD_Exif ExifIFD_ISOSpeedRatings
     = Some (VInt 100)
   \<and> get_group (apply_extended_camera_profile e profile mk mdl) IFD_0th ImageIFD_Software
     = Some (VStr (if str_lower profile = ''canon'' then ''Canon Firmware''
                   else if str_lower profile = ''iphone'' then ''Apple iOS''
                   else ''Camera System''))
   \<and> get_group (apply_extended_camera_profile e profile mk mdl) IFD_Exif ExifIFD_LensMake
     = (if str_lower profile = ''canon'' then Some (VStr ''Canon'')
        else if str_lower profile = ''iphone'' then Some (VStr ''Apple'')
        else get_group e IFD_Exif ExifIFD_LensMake)
   \<and> get_group (apply_extended_camera_profile e profile mk mdl) IFD_Exif ExifIFD_LensModel
     = (if str_lower profile = ''canon'' then Some (VStr ''EF 50mm f/1.8'')
        else if str_lower profile = ''iphone''
        then Some (VStr ''iPhone 14 Pro back camera 24mm f/1.78'')
        else get_group e IFD_Exif ExifIFD_LensModel)
   \<and> get_group (apply_extended_camera_profile e ''iphone'' mk mdl) IFD_Exif ExifIFD_LensModel
     = Some (VStr ''iPhone 14 Pro back camera 24mm f/1.78'')
   \<and> get_group (apply_extended_camera_profile e ''iphone'' mk mdl) IFD_0th ImageIFD_Software
     = Some (VStr ''Apple iOS'')
   \<and> get_group (apply_extended_camera_profile e profile mk mdl) IFD_GPS
     = get_group e IFD_GPS"
  by (simp add: get_group_def groups_apply_extended_camera_profile tag_defs Let_def
      str_lower_profile_keys)

section \<open>Properties of the readable projection\<close>

lemma utf8_ignore_replicate_ff: "utf8_ignore (replicate n 0xFF) = []"
  by (induction n) simp_all

lemma bytes_hex_replicate_ff: "bytes_hex (replicate n 0xFF) = concat (replicate n ''ff'')"
  by (induction n) (simp_all add: bytes_hex_def hex_byte_def hex_digit_def)

text \<open>
  Claim C5 says that a byte-string value outside the UTF-16LE set is decoded as UTF-8,
  then by a Latin-1 fallback, and rendered as a hex preview only if both decodings fail.
  The function is written with that chain (\<^verbatim>\<open># Try utf-8 then latin-1\<close>,
  \<^verbatim>\<open># Fallback to hex preview\<close>), but each decoder is called with \<^verbatim>\<open>errors="ignore"\<close> and
  so never fails: the two fallbacks are never reached. The value is always the UTF-8
  decoding with every ill-formed byte dropped. The byte \<^verbatim>\<open>E9\<close> (the Latin-1 letter e with
  acute accent) under the tag Software gives the empty text, not the letter; in
  \<^verbatim>\<open>caf\<close> followed by \<^verbatim>\<open>E9\<close> the letter is lost; seventy bytes \<^verbatim>\<open>FF\<close> give the empty text,
  not the hex preview (64 times \<^verbatim>\<open>ff\<close> and the marker). For a tag of the UTF-16LE set
  the value is the UTF-16LE decoding without the NUL characters at its end, as claimed.
\<close>

theorem decode_bytes_value_drops_undecodable:
  "ImageIFD_Software \<notin> set XP_TAGS
   \<and> decode_bytes_value ImageIFD_Software [0xE9] = []
   \<and> the (decode_latin1 [0xE9]) = [0xE9]
   \<and> decode_bytes_value ImageIFD_Software [0x63, 0x61, 0x66, 0xE9] = codepoints_of ''caf''
   \<and> decode_bytes_value ImageIFD_Software (replicate 70 0xFF) = []
   \<and> hex_preview (replicate 70 0xFF) = codepoints_of (concat (replicate 64 ''ff'') @ ''...'')
   \<and> decode_bytes_value tag v
       = (if tag \<in> set XP_TAGS then rstrip_nul (utf16le_ignore v) else utf8_ignore v)
   \<and> decode_bytes_value XP_TITLE [0x48, 0, 0x69, 0, 0, 0] = codepoints_of ''Hi''
   \<and> readable_value tag (VBytes v) = Decoded (decode_bytes_value tag v)"
proof -
  have gen: "decode_bytes_value t w
       = (if t \<in> set XP_TAGS then rstrip_nul (utf16le_ignore w) else utf8_ignore w)" for t w
    by (simp add: decode_bytes_value_def decode_fallbacks_def decode_utf8_def
        decode_utf16le_def)
  have sw: "ImageIFD_Software \<notin> set XP_TAGS"
    by (simp add: tag_defs)
  have xp: "XP_TITLE \<in> set XP_TAGS"
    by (simp add: XP_TAGS_def)
  have e9: "decode_bytes_value ImageIFD_Software [0xE9] = []"
    by (simp add: gen sw)
  have l1: "the (decode_latin1 [0xE9]) = [0xE9]"
    by (simp add: decode_latin1_def)
  have caf: "decode_bytes_value ImageIFD_Software [0x63, 0x61, 0x66, 0xE9] = codepoints_of ''caf''"
    by (simp add: gen sw codepoints_of_def)
  have ff: "decode_bytes_value ImageIFD_Software (replicate 70 0xFF) = []"
    by (simp add: gen sw utf8_ignore_replicate_ff)
  have hex: "hex_preview (replicate 70 0xFF) = codepoints_of (concat (replicate 64 ''ff'') @ ''...'')"
    by (simp add: hex_preview_def bytes_hex_replicate_ff)
  have hi: "decode_bytes_value XP_TITLE [0x48, 0, 0x69, 0, 0, 0] = codepoints_of ''Hi''"
    by (simp add: gen xp rstrip_nul_def codepoints_of_def)
  have rd: "readable_value tag (VBytes v) = Decoded (decode_bytes_value tag v)"
    by (simp add: readable_value_def)
  from sw e9 l1 caf ff hex gen [of tag v] hi rd show ?thesis
    by (intro conjI)
qed


section \<open>Properties of the byte scan\<close>

lemma scan_chunks_read_error:
  "scan_chunks keys mx (rs @ ReadError # rest) leftover matches
     = scan_chunks keys mx rs leftover matches"
proof (induction rs arbitrary: leftover matches)
  case Nil
  then show ?case by simp
next
  case (Cons r rs)
  then show ?case
    by (cases r) (auto simp: Let_def split: prod.splits key_loop.splits)
qed

lemma encode_utf8_pystr_of: "encode_utf8 (pystr_of s) = Some (utf8_bytes s)"
  by (induction s) (simp_all add: pystr_of_def utf8_bytes_def)

lemma scan_window_mono: "set matches \<subseteq> set (fst (scan_window low keys mx matches))"
  by (induction low keys mx matches rule: scan_window.induct)
     (auto simp: Let_def split: option.splits)

lemma scan_window_stop:
  "scan_window low keys mx matches = (m', Returned) \<Longrightarrow> int (length m') \<ge> mx"
  by (induction low keys mx matches rule: scan_window.induct)
     (auto simp: Let_def split: if_splits option.splits)

lemma scan_window_raised:
  "scan_window low keys mx matches = (m', Raised) \<Longrightarrow> \<exists>k \<in> set keys. encode_utf8 k = None"
  by (induction low keys mx matches rule: scan_window.induct)
     (auto simp: Let_def split: if_splits option.splits)

lemma scan_window_hit:
  "scan_window low keys mx matches = (m', Completed) \<Longrightarrow> kw \<in> set keys \<Longrightarrow>
   encode_utf8 kw = Some n \<Longrightarrow> contains n low \<Longrightarrow> found_msg kw \<in> set m'"
proof (induction low keys mx matches rule: scan_window.induct)
  case (1 low mx matches)
  then show ?case by simp
next
  case (2 low k kws mx matches)
  show ?case
  proof (cases "kw = k")
    case True
    have "found_msg k \<in> set (fst (scan_window low (k # kws) mx matches))"
      using "2.prems"(3,4) True scan_window_mono [of "matches @ [found_msg k]" low kws mx]
        scan_window_mono [of matches low kws mx]
      by (auto simp: Let_def split: if_splits)
    with "2.prems"(1) True show ?thesis by simp
  next
    case False
    with 2 show ?thesis by (auto simp: Let_def split: if_splits option.splits)
  qed
qed

lemma scan_chunks_mono: "set matches \<subseteq> set (scan_chunks keys mx rs leftover matches)"
proof (induction keys mx rs leftover matches rule: scan_chunks.induct)
  case (3 keys mx chunk reads leftover matches)
  show ?case
  proof (cases "chunk = []")
    case True
    then show ?thesis by simp
  next
    case False
    obtain m' stop where sw: "scan_window (bytes_lower (leftover @ chunk)) keys mx matches = (m', stop)"
      by (cases "scan_window (bytes_lower (leftover @ chunk)) keys mx matches")
    have mono: "set matches \<subseteq> set m'"
      using scan_window_mono [of matches "bytes_lower (leftover @ chunk)" keys mx] sw by simp
    show ?thesis
    proof (cases "stop = Completed")
      case F: True
      have "set m' \<subseteq> set (scan_chunks keys mx reads (keep_overlap (leftover @ chunk)) m')"
        using 3 [OF False refl refl sw [symmetric]] F by simp
      with False sw mono F show ?thesis by (auto simp: Let_def)
    next
      case False
      with \<open>chunk \<noteq> []\<close> sw mono show ?thesis by (cases stop) (simp_all add: Let_def)
    qed
  qed
qed simp_all

lemma contains_drop: "contains n (drop d w) \<Longrightarrow> contains n w"
proof -
  assume "contains n (drop d w)"
  then obtain p s where "drop d w = p @ n @ s" by (auto simp: contains_iff)
  then have "w = (take d w @ p) @ n @ s" by (metis append_take_drop_id append.assoc)
  then show ?thesis unfolding contains_iff by blast
qed

lemma bytes_lower_append: "bytes_lower (a @ b) = bytes_lower a @ bytes_lower b"
  by (simp add: bytes_lower_def)

lemma bytes_lower_keep_overlap:
  "bytes_lower (keep_overlap w) = drop (length (bytes_lower w) - overlap) (bytes_lower w)"
  by (simp add: bytes_lower_def keep_overlap_def drop_map)

lemma scan_chunks_detects:
  assumes "kw \<in> set keys" and "length n \<le> Suc overlap"
    and "\<forall>c \<in> set cs. c \<noteq> []"
    and "found_msg kw \<in> set matches \<or> contains n (bytes_lower (leftover @ concat cs))"
    and "contains n (bytes_lower leftover) \<longrightarrow> found_msg kw \<in> set matches"
    and enc: "encode_utf8 kw = Some n"
    and all: "\<forall>k \<in> set keys. encode_utf8 k \<noteq> None"
  shows "found_msg kw \<in> set (scan_chunks keys mx (map Data cs) leftover matches)
         \<or> int (length (scan_chunks keys mx (map Data cs) leftover matches)) \<ge> mx"
  using assms(3-5)
proof (induction cs arbitrary: leftover matches)
  case Nil
  then show ?case by auto
next
  case (Cons c cs)
  let ?n = n
  let ?w = "leftover @ c"
  have c: "c \<noteq> []" using Cons.prems(1) by simp
  obtain m' stop where sw: "scan_window (bytes_lower ?w) keys mx matches = (m', stop)"
    by (cases "scan_window (bytes_lower ?w) keys mx matches")
  have nr: "stop \<noteq> Raised"
    using sw scan_window_raised [of "bytes_lower ?w" keys mx matches m'] all by auto
  show ?case
  proof (cases "stop = Returned")
    case True
    then have "int (length m') \<ge> mx" using sw scan_window_stop [of _ keys mx matches m'] by simp
    with True sw c show ?thesis by (simp add: Let_def)
  next
    case nret: False
    with nr have False: "stop = Completed" by (cases stop) simp_all
    have res: "scan_chunks keys mx (map Data (c # cs)) leftover matches
                = scan_chunks keys mx (map Data cs) (keep_overlap ?w) m'"
      using False sw c by (simp add: Let_def)
    have mono1: "set matches \<subseteq> set m'"
      using scan_window_mono [of matches "bytes_lower ?w" keys mx] sw by simp
    show ?thesis
    proof (cases "found_msg kw \<in> set m'")
      case True
      then have "found_msg kw \<in> set (scan_chunks keys mx (map Data cs) (keep_overlap ?w) m')"
        using scan_chunks_mono by blast
      with res show ?thesis by simp
    next
      case notin: False
      then have nm: "found_msg kw \<notin> set matches" using mono1 by blast
      have nw: "\<not> contains ?n (bytes_lower ?w)"
        using scan_window_hit [OF _ assms(1) enc, of _ mx matches m'] sw False notin by auto
      from nm Cons.prems(2)
      have "contains ?n (bytes_lower ?w @ bytes_lower (concat cs))"
        by (simp add: bytes_lower_append)
      from contains_window_or_overlap [OF this assms(2)] nw
      have ov: "contains ?n (bytes_lower (keep_overlap ?w @ concat cs))"
        by (simp add: bytes_lower_append bytes_lower_keep_overlap)
      have no: "\<not> contains ?n (bytes_lower (keep_overlap ?w))"
        using nw contains_drop by (auto simp: bytes_lower_keep_overlap)
      have "found_msg kw \<in> set (scan_chunks keys mx (map Data cs) (keep_overlap ?w) m')
         \<or> int (length (scan_chunks keys mx (map Data cs) (keep_overlap ?w) m')) \<ge> mx"
        by (rule Cons.IH) (use Cons.prems(1) ov no in auto)
      with res show ?thesis by simp
    qed
  qed
qed

lemma concat_chunks: "0 < n \<Longrightarrow> concat (chunks n bs) = bs"
proof (induction n bs rule: chunks.induct)
  case (1 n bs)
  show ?case
  proof (cases "bs = []")
    case True
    then show ?thesis by (subst chunks.simps) simp
  next
    case False
    with 1 have "concat (chunks n (drop n bs)) = drop n bs" by simp
    with False "1.prems" show ?thesis
      by (subst chunks.simps) simp
  qed
qed

lemma chunks_nonempty: "\<forall>c \<in> set (chunks n bs). c \<noteq> []"
proof (induction n bs rule: chunks.induct)
  case (1 n bs)
  show ?case
  proof (cases "n = 0 \<or> bs = []")
    case True
    then show ?thesis by (subst chunks.simps) simp
  next
    case False
    with 1 have "\<forall>c \<in> set (chunks n (drop n bs)). c \<noteq> []" by simp
    with False show ?thesis
      by (subst chunks.simps) auto
  qed
qed

lemma set_dedupe_lower: "set (dedupe_lower seen ks) \<subseteq> pystr_lower ` set ks"
  by (induction seen ks rule: dedupe_lower.induct) (auto simp: Let_def)

lemma scan_keys_nonempty: "kw \<in> set (scan_keys extra) \<Longrightarrow> kw \<noteq> []"
proof -
  assume "kw \<in> set (scan_keys extra)"
  then obtain k where k: "kw = pystr_lower k"
    "k \<in> set (map pystr_of AI_KEYWORDS
              @ (case extra of None \<Rightarrow> [] | Some ex \<Rightarrow> filter (\<lambda>k. k \<noteq> []) ex))"
    using set_dedupe_lower unfolding scan_keys_def by blast
  then have "k \<noteq> []" by (auto simp: AI_KEYWORDS_def pystr_of_def split: option.splits)
  with k show ?thesis by (simp add: pystr_lower_def)
qed

lemma encode_utf8_nonempty: "kw \<noteq> [] \<Longrightarrow> encode_utf8 kw = Some n \<Longrightarrow> n \<noteq> []"
proof (cases kw)
  case Nil
  assume "kw \<noteq> []" with Nil show ?thesis by simp
next
  case (Cons c cs)
  assume "encode_utf8 kw = Some n"
  with Cons show ?thesis
    by (cases c) (auto simp: encode_utf8_char_def Let_def split: option.splits if_splits)
qed

lemma deep_scan_bytes_detects:
  assumes "kw \<in> set (scan_keys extra)"
    and "length n \<le> overlap + 1"
    and "contains n (bytes_lower content)"
    and enc: "encode_utf8 kw = Some n"
    and all: "\<forall>k \<in> set (scan_keys extra). encode_utf8 k \<noteq> None"
  shows "found_msg kw \<in> set (deep_scan_bytes (regular_file content) extra mx)
         \<or> int (length (deep_scan_bytes (regular_file content) extra mx)) \<ge> mx"
proof -
  have ne: "n \<noteq> []"
    using assms(1) scan_keys_nonempty encode_utf8_nonempty enc by blast
  have "found_msg kw \<in> set (scan_chunks (scan_keys extra) mx (map Data (chunks chunk_size content)) [] [])
     \<or> int (length (scan_chunks (scan_keys extra) mx (map Data (chunks chunk_size content)) [] [])) \<ge> mx"
  proof (rule scan_chunks_detects [OF assms(1)])
    show "length n \<le> Suc overlap" using assms(2) by simp
    show "\<forall>c \<in> set (chunks chunk_size content). c \<noteq> []" by (rule chunks_nonempty)
    show "found_msg kw \<in> set [] \<or>
          contains n (bytes_lower ([] @ concat (chunks chunk_size content)))"
      using assms(3) by (simp add: concat_chunks chunk_size_def)
    show "contains n (bytes_lower []) \<longrightarrow> found_msg kw \<in> set []"
      using ne by (simp add: bytes_lower_def)
    show "encode_utf8 kw = Some n" by (rule enc)
    show "\<forall>k \<in> set (scan_keys extra). encode_utf8 k \<noteq> None" by (rule all)
  qed
  then show ?thesis by (simp add: deep_scan_bytes_def regular_file_def)
qed

lemma scan_window_inv:
  "distinct matches \<Longrightarrow> set matches \<subseteq> found_msg ` S \<Longrightarrow> set keys \<subseteq> S \<Longrightarrow>
   distinct (fst (scan_window low keys mx matches))
   \<and> set (fst (scan_window low keys mx matches)) \<subseteq> found_msg ` S"
  by (induction low keys mx matches rule: scan_window.induct)
     (auto simp: Let_def split: option.splits)

lemma scan_chunks_inv:
  "distinct matches \<Longrightarrow> set matches \<subseteq> found_msg ` set keys \<Longrightarrow>
   distinct (scan_chunks keys mx rs leftover matches)
   \<and> set (scan_chunks keys mx rs leftover matches) \<subseteq> found_msg ` set keys"
proof (induction keys mx rs leftover matches rule: scan_chunks.induct)
  case (3 keys mx chunk reads leftover matches)
  show ?case
  proof (cases "chunk = []")
    case True
    with 3 show ?thesis by simp
  next
    case False
    obtain m' stop where sw: "scan_window (bytes_lower (leftover @ chunk)) keys mx matches = (m', stop)"
      by (cases "scan_window (bytes_lower (leftover @ chunk)) keys mx matches")
    have inv: "distinct m' \<and> set m' \<subseteq> found_msg ` set keys"
      using scan_window_inv [OF "3.prems", of keys "bytes_lower (leftover @ chunk)" mx] sw by simp
    show ?thesis
    proof (cases "stop = Completed")
      case F: True
      have "distinct (scan_chunks keys mx reads (keep_overlap (leftover @ chunk)) m')
          \<and> set (scan_chunks keys mx reads (keep_overlap (leftover @ chunk)) m') \<subseteq> found_msg ` set keys"
        using 3(1) [OF False refl refl sw [symmetric]] F inv by simp
      with False sw F show ?thesis by (simp add: Let_def)
    next
      case False
      with \<open>chunk \<noteq> []\<close> sw inv show ?thesis by (cases stop) (simp_all add: Let_def)
    qed
  qed
qed simp_all

lemma length_deep_scan_bytes:
  "length (deep_scan_bytes fl extra mx) \<le> length (scan_keys extra)"
proof (cases fl)
  case OpenError
  then show ?thesis by (simp add: deep_scan_bytes_def)
next
  case (Opened rs)
  let ?r = "scan_chunks (scan_keys extra) mx rs [] []"
  have inv: "distinct ?r \<and> set ?r \<subseteq> found_msg ` set (scan_keys extra)"
    by (rule scan_chunks_inv) simp_all
  then have "length ?r = card (set ?r)" by (simp add: distinct_card)
  also have "\<dots> \<le> card (found_msg ` set (scan_keys extra))"
    using inv by (simp add: card_mono)
  also have "\<dots> \<le> card (set (scan_keys extra))" by (rule card_image_le) simp
  also have "\<dots> \<le> length (scan_keys extra)" by (rule card_length)
  finally show ?thesis using Opened by (simp add: deep_scan_bytes_def)
qed

lemma length_dedupe_lower: "length (dedupe_lower seen ks) \<le> length ks"
  by (induction seen ks rule: dedupe_lower.induct) (auto simp: Let_def)

lemma set_dedupe_lower_eq: "set (dedupe_lower seen ks) = pystr_lower ` set ks - set seen"
  by (induction seen ks rule: dedupe_lower.induct) (auto simp: Let_def)

lemma str_lower_AI_KEYWORDS: "map str_lower AI_KEYWORDS = AI_KEYWORDS"
  by (simp add: AI_KEYWORDS_def str_lower_def lower_char_def)

lemma pystr_lower_pystr_of: "pystr_lower (pystr_of s) = pystr_of (str_lower s)"
  by (simp add: pystr_lower_def pystr_of_def str_lower_def lower_pychar_def)

lemma AI_KEYWORDS_in_scan_keys:
  "kw \<in> set AI_KEYWORDS \<Longrightarrow> pystr_of kw \<in> set (scan_keys extra)"
proof -
  assume kw: "kw \<in> set AI_KEYWORDS"
  then have "str_lower kw \<in> set (map str_lower AI_KEYWORDS)" by simp
  then have "str_lower kw = kw"
    using kw by (metis str_lower_AI_KEYWORDS in_set_conv_nth nth_map)
  then have "pystr_lower (pystr_of kw) = pystr_of kw"
    by (simp add: pystr_lower_pystr_of)
  then show ?thesis using kw by (force simp: scan_keys_def set_dedupe_lower_eq)
qed

lemma length_scan_keys_None: "length (scan_keys None) \<le> 19"
  using length_dedupe_lower [of "[]" "map pystr_of AI_KEYWORDS"]
  by (simp add: scan_keys_def AI_KEYWORDS_def)

lemma AI_KEYWORDS_short: "list_all (\<lambda>kw. length (utf8_bytes kw) \<le> 16) AI_KEYWORDS"
  by (simp add: AI_KEYWORDS_def utf8_bytes_def encode_utf8_char_def)

lemma contains_suffix: "contains n (p @ n)"
  unfolding contains_iff by (rule exI [of _ p], rule exI [of _ "[]"]) simp

lemma utf8_bytes_firefly: "utf8_bytes ''firefly'' = [102, 105, 114, 101, 102, 108, 121]"
  "utf8_bytes ''fire'' = [102, 105, 114, 101]" "utf8_bytes ''fly'' = [102, 108, 121]"
  by (simp_all add: utf8_bytes_def encode_utf8_char_def)

lemma bytes_lower_firefly: "bytes_lower (utf8_bytes ''firefly'') = utf8_bytes ''firefly''"
  by (simp add: utf8_bytes_firefly bytes_lower_def lower_byte_def)

lemma found_msg_inject: "found_msg a = found_msg b \<longleftrightarrow> a = b"
  by (simp add: found_msg_def)

lemma scan_window_sound:
  "found_msg kw \<in> set (fst (scan_window low keys mx matches)) \<Longrightarrow>
   found_msg kw \<in> set matches \<or> (\<exists>n. encode_utf8 kw = Some n \<and> contains n low)"
  by (induction low keys mx matches rule: scan_window.induct)
     (auto simp: Let_def found_msg_inject split: if_splits option.splits)

lemma scan_chunks_sound:
  "found_msg kw \<in> set (scan_chunks keys mx rs leftover matches) \<Longrightarrow> encode_utf8 kw = Some n \<Longrightarrow>
   found_msg kw \<in> set matches
   \<or> list_ex (\<lambda>w. contains n (bytes_lower w)) (windows rs leftover)"
proof (induction keys mx rs leftover matches rule: scan_chunks.induct)
  case (3 keys mx chunk reads leftover matches)
  show ?case
  proof (cases "chunk = []")
    case True
    with "3.prems" show ?thesis by simp
  next
    case False
    obtain m' stop where sw: "scan_window (bytes_lower (leftover @ chunk)) keys mx matches = (m', stop)"
      by (cases "scan_window (bytes_lower (leftover @ chunk)) keys mx matches")
    have snd1: "found_msg kw \<in> set m' \<Longrightarrow>
          found_msg kw \<in> set matches \<or> contains n (bytes_lower (leftover @ chunk))"
      using scan_window_sound [of kw "bytes_lower (leftover @ chunk)" keys mx matches] sw
        "3.prems"(2) by auto
    show ?thesis
    proof (cases "stop = Completed")
      case F: True
      with False sw "3.prems"
      have "found_msg kw \<in> set (scan_chunks keys mx reads (keep_overlap (leftover @ chunk)) m')"
        by (simp add: Let_def)
      then have "found_msg kw \<in> set m'
          \<or> list_ex (\<lambda>w. contains n (bytes_lower w))
               (windows reads (keep_overlap (leftover @ chunk)))"
        using 3(1) [OF False refl refl sw [symmetric]] F "3.prems"(2) by simp
      with snd1 False show ?thesis by auto
    next
      case nc: False
      with False sw "3.prems" have "found_msg kw \<in> set m'"
        by (cases stop) (simp_all add: Let_def)
      with snd1 False show ?thesis by auto
    qed
  qed
qed simp_all

lemma utf8_bytes_replicate_x: "utf8_bytes (replicate n (CHR ''x'')) = replicate n 120"
  by (induction n) (simp_all add: utf8_bytes_def encode_utf8_char_def)

lemma bytes_lower_replicate: "bytes_lower (replicate n b) = replicate n (lower_byte b)"
  by (simp add: bytes_lower_def)

lemma lower_byte_values: "lower_byte 0 = 0" "lower_byte 120 = 120"
  by (simp_all add: lower_byte_def)

lemma scan_keys_None: "scan_keys None = map pystr_of AI_KEYWORDS"
  by (simp add: scan_keys_def AI_KEYWORDS_def pystr_lower_def pystr_of_def lower_pychar_def
      lower_char_def Let_def)

lemma scan_keys_lone_surrogate:
  "scan_keys (Some [lone_surrogate]) = map pystr_of AI_KEYWORDS @ [lone_surrogate]"
  by (simp add: scan_keys_def AI_KEYWORDS_def pystr_lower_def pystr_of_def lower_pychar_def
      lower_char_def Let_def lone_surrogate_def)

lemma encodable_pystr_of: "encodable (pystr_of s)"
  by (simp add: encodable_def encode_utf8_pystr_of)

lemma encodable_scan_keys_None: "list_all encodable (scan_keys None)"
  by (simp add: scan_keys_None list_all_iff encodable_pystr_of)

lemma not_contains_by_set: "set low \<subseteq> S \<Longrightarrow> \<not> set n \<subseteq> S \<Longrightarrow> \<not> contains n low"
  using contains_set by blast

lemma scan_window_skip:
  "list_all (\<lambda>kw. \<not> contains (utf8_bytes kw) low) ks \<Longrightarrow>
   scan_window low (map pystr_of ks @ rest) mx matches = scan_window low rest mx matches"
  by (induction ks) (simp_all add: encode_utf8_pystr_of)

lemma scan_window_no_hits:
  "list_all (\<lambda>kw. \<not> contains (utf8_bytes kw) low) ks \<Longrightarrow>
   scan_window low (map pystr_of ks) mx matches = (matches, Completed)"
  using scan_window_skip [of low ks "[]" mx matches] by simp

lemma utf8_bytes_sdxl: "utf8_bytes ''sdxl'' = [115, 100, 120, 108]"
  by (simp add: utf8_bytes_def encode_utf8_char_def)

lemma lower_byte_sdxl:
  "lower_byte 115 = 115" "lower_byte 100 = 100" "lower_byte 108 = 108"
  "lower_byte 102 = 102" "lower_byte 105 = 105" "lower_byte 114 = 114" "lower_byte 101 = 101"
  "lower_byte 121 = 121"
  by (simp_all add: lower_byte_def)


subsection \<open>Keywords across chunk boundaries\<close>

lemma chunks_long_kw_file:
  "chunks chunk_size long_kw_file
     = [replicate (chunk_size - 65) 0 @ replicate 65 120, [120]]"
  apply (subst chunks.simps)
  apply (subst chunks.simps)
  apply (subst chunks.simps)
  apply (simp add: long_kw_file_def long_kw_def utf8_bytes_replicate_x chunk_size_def)
  done

lemma str_lower_long_kw: "str_lower long_kw = long_kw"
  by (simp add: long_kw_def str_lower_def lower_char_def)

lemma long_kw_is_key: "pystr_of long_kw \<in> set (scan_keys (Some [pystr_of long_kw]))"
proof -
  have "pystr_of long_kw \<noteq> []" by (simp add: long_kw_def pystr_of_def)
  then have "pystr_lower (pystr_of long_kw)
      \<in> pystr_lower ` set (map pystr_of AI_KEYWORDS @ filter (\<lambda>k. k \<noteq> []) [pystr_of long_kw])"
    by simp
  then show ?thesis
    by (simp add: scan_keys_def set_dedupe_lower_eq pystr_lower_pystr_of str_lower_long_kw)
qed

lemma windows_long_kw_file:
  "windows (map Data (chunks chunk_size long_kw_file)) []
     = [replicate (chunk_size - 65) 0 @ replicate 65 120, replicate 64 120 @ [120]]"
  unfolding chunks_long_kw_file
  by (simp add: keep_overlap_def overlap_def chunk_size_def)

lemma long_kw_missed:
  "found_msg (pystr_of long_kw)
     \<notin> set (deep_scan_bytes (regular_file long_kw_file) (Some [pystr_of long_kw]) 20)"
proof
  assume "found_msg (pystr_of long_kw)
     \<in> set (deep_scan_bytes (regular_file long_kw_file) (Some [pystr_of long_kw]) 20)"
  then have "list_ex (\<lambda>w. contains (utf8_bytes long_kw) (bytes_lower w))
               (windows (map Data (chunks chunk_size long_kw_file)) [])"
    using scan_chunks_sound [of "pystr_of long_kw" "scan_keys (Some [pystr_of long_kw])" 20
        "map Data (chunks chunk_size long_kw_file)" "[]" "[]" "utf8_bytes long_kw"]
    by (simp add: deep_scan_bytes_def regular_file_def encode_utf8_pystr_of)
  then consider
      "contains (replicate 66 120) (bytes_lower (replicate (chunk_size - 65) 0 @ replicate 65 120))"
    | "contains (replicate 66 120) (bytes_lower (replicate 64 120 @ [120]))"
    by (auto simp: windows_long_kw_file long_kw_def utf8_bytes_replicate_x)
  then show False
  proof cases
    case 1
    from contains_count [OF this, of "\<lambda>b. b = 120"] show False
      by (simp add: bytes_lower_append bytes_lower_replicate lower_byte_values)
  next
    case 2
    from contains_length [OF this] show False
      by (simp add: bytes_lower_def)
  qed
qed

lemma long_kw_occurs: "contains (utf8_bytes long_kw) (bytes_lower long_kw_file)"
  by (simp add: long_kw_file_def long_kw_def utf8_bytes_replicate_x bytes_lower_append
      bytes_lower_replicate lower_byte_values contains_suffix)

lemma chunks_early_stop_file:
  "chunks chunk_size early_stop_file
     = [utf8_bytes ''sdxl'' @ replicate (chunk_size - 8) 0 @ utf8_bytes ''fire'',
        utf8_bytes ''fly'']"
  apply (subst chunks.simps)
  apply (subst chunks.simps)
  apply (subst chunks.simps)
  apply (simp add: early_stop_file_def chunk_size_def utf8_bytes_firefly utf8_bytes_sdxl)
  done

lemma early_stop_window_lower:
  "bytes_lower (utf8_bytes ''sdxl'' @ replicate (chunk_size - 8) 0 @ utf8_bytes ''fire'')
     = utf8_bytes ''sdxl'' @ replicate (chunk_size - 8) 0 @ utf8_bytes ''fire''"
  by (simp add: bytes_lower_append bytes_lower_replicate lower_byte_values utf8_bytes_sdxl
      utf8_bytes_firefly bytes_lower_def lower_byte_sdxl)

lemma early_stop_window_scan:
  "scan_window (utf8_bytes ''sdxl'' @ replicate (chunk_size - 8) 0 @ utf8_bytes ''fire'')
     (map pystr_of AI_KEYWORDS) 1 [] = ([found_msg (pystr_of ''sdxl'')], Returned)"
proof -
  let ?low = "utf8_bytes ''sdxl'' @ replicate (chunk_size - 8) 0 @ utf8_bytes ''fire''"
  have s: "set ?low \<subseteq> {115, 100, 120, 108, 0, 102, 105, 114, 101}"
    by (auto simp: utf8_bytes_sdxl utf8_bytes_firefly)
  have first: "\<not> contains (utf8_bytes ''stable diffusion'') ?low"
    by (rule not_contains_by_set [OF s]) (simp add: utf8_bytes_def encode_utf8_char_def)
  have hit: "contains (utf8_bytes ''sdxl'') ?low" by (rule contains_prefix)
  have split: "AI_KEYWORDS = ''stable diffusion'' # ''sdxl'' # drop 2 AI_KEYWORDS"
    by (simp add: AI_KEYWORDS_def)
  show ?thesis
    by (subst split) (simp add: first hit encode_utf8_pystr_of)
qed

lemma early_stop_result:
  "deep_scan_bytes (regular_file early_stop_file) None 1 = [found_msg (pystr_of ''sdxl'')]"
proof -
  have ne: "utf8_bytes ''sdxl'' @ replicate (chunk_size - 8) 0 @ utf8_bytes ''fire'' \<noteq> []"
    by (simp add: utf8_bytes_sdxl)
  show ?thesis
    unfolding deep_scan_bytes_def regular_file_def chunks_early_stop_file
    using ne
    by (simp add: scan_keys_None Let_def early_stop_window_lower early_stop_window_scan
        del: append_is_Nil_conv)
qed

lemma firefly_occurs_early_stop:
  "contains (utf8_bytes ''firefly'') (bytes_lower early_stop_file)"
proof -
  have "bytes_lower early_stop_file
         = (utf8_bytes ''sdxl'' @ replicate (chunk_size - 8) 0) @ utf8_bytes ''firefly''"
    by (simp add: early_stop_file_def bytes_lower_append bytes_lower_replicate lower_byte_values
        bytes_lower_firefly)
       (simp add: bytes_lower_def utf8_bytes_sdxl lower_byte_sdxl lower_byte_values)
  then show ?thesis by (simp only: contains_suffix)
qed

lemma split_window_lower:
  "bytes_lower (replicate (chunk_size - 4) 0 @ utf8_bytes ''fire'')
     = replicate (chunk_size - 4) 0 @ utf8_bytes ''fire''"
  by (simp add: bytes_lower_append bytes_lower_replicate lower_byte_values utf8_bytes_firefly
      bytes_lower_def lower_byte_sdxl)

lemma split_window_no_hits:
  "list_all (\<lambda>kw. \<not> contains (utf8_bytes kw) (replicate (chunk_size - 4) 0 @ utf8_bytes ''fire''))
     AI_KEYWORDS"
proof -
  have s: "set (replicate (chunk_size - 4) 0 @ utf8_bytes ''fire'') \<subseteq> {0, 102, 105, 114, 101}"
    by (auto simp: utf8_bytes_firefly)
  show ?thesis
    unfolding AI_KEYWORDS_def
    by (simp, intro conjI; rule not_contains_by_set [OF s])
       (simp_all add: utf8_bytes_def encode_utf8_char_def)
qed

lemma chunks_split_file:
  "chunks chunk_size split_file
     = [replicate (chunk_size - 4) 0 @ utf8_bytes ''fire'', utf8_bytes ''fly'']"
  apply (subst chunks.simps)
  apply (subst chunks.simps)
  apply (subst chunks.simps)
  apply (simp add: split_file_def chunk_size_def utf8_bytes_firefly)
  done

lemma firefly_occurs_split_file: "contains (utf8_bytes ''firefly'') (bytes_lower split_file)"
  by (simp add: split_file_def bytes_lower_append bytes_lower_firefly contains_suffix)

lemma surrogate_result:
  "deep_scan_bytes (regular_file split_file) (Some [lone_surrogate]) 20 = []"
proof -
  have "chunk_size - 4 \<noteq> 0" by (simp add: chunk_size_def)
  then have ne: "replicate (chunk_size - 4) 0 @ utf8_bytes ''fire'' \<noteq> []" by simp
  have raised: "scan_window (replicate (chunk_size - 4) 0 @ utf8_bytes ''fire'')
      (map pystr_of AI_KEYWORDS @ [lone_surrogate]) 20 [] = ([], Raised)"
    by (simp add: scan_window_skip [OF split_window_no_hits] lone_surrogate_def)
  show ?thesis
    unfolding deep_scan_bytes_def regular_file_def chunks_split_file
    using ne
    by (simp add: scan_keys_lone_surrogate Let_def split_window_lower raised
        del: append_is_Nil_conv)
qed

text \<open>
  Claim C6, as stated, fails in three ways. The scanned list takes extra keywords of any
  length while the overlap is fixed: a key of 66 bytes whose occurrence has 65 bytes in the
  first chunk and one in the second is in neither window as a whole and is not reported.
  The scan returns as soon as \<^verbatim>\<open>max_matches\<close> messages are collected: with
  \<^verbatim>\<open>max_matches = 1\<close> and \<^verbatim>\<open>sdxl\<close> in the first chunk, the keyword \<^verbatim>\<open>firefly\<close>, split
  after \<^verbatim>\<open>fire\<close> by the chunk boundary, is not reported. And a key that UTF-8 cannot
  encode ends the scan in the first window, where \<^verbatim>\<open>kw.encode("utf-8")\<close> raises inside the
  \<^verbatim>\<open>try\<close>: with the extra keyword \<^verbatim>\<open>"\ud800"\<close> the keyword \<^verbatim>\<open>firefly\<close>, split after
  \<^verbatim>\<open>fire\<close>, is not reported (nothing is), though every read succeeds and \<^verbatim>\<open>max_matches\<close>
  is not reached.
\<close>

theorem deep_scan_bytes_misses_split_keyword:
  "pystr_of long_kw \<in> set (scan_keys (Some [pystr_of long_kw]))
   \<and> encode_utf8 (pystr_of long_kw) = Some (utf8_bytes long_kw)
   \<and> overlap < length (utf8_bytes long_kw) - 1
   \<and> chunks chunk_size long_kw_file
       = [replicate (chunk_size - 65) 0 @ replicate 65 120, [120]]
   \<and> contains (utf8_bytes long_kw) (bytes_lower long_kw_file)
   \<and> found_msg (pystr_of long_kw)
       \<notin> set (deep_scan_bytes (regular_file long_kw_file) (Some [pystr_of long_kw]) 20)
   \<and> pystr_of ''firefly'' \<in> set (scan_keys None)
   \<and> encode_utf8 (pystr_of ''firefly'') = Some (utf8_bytes ''firefly'')
   \<and> chunks chunk_size early_stop_file
       = [utf8_bytes ''sdxl'' @ replicate (chunk_size - 8) 0 @ utf8_bytes ''fire'',
          utf8_bytes ''fly'']
   \<and> contains (utf8_bytes ''firefly'') (bytes_lower early_stop_file)
   \<and> found_msg (pystr_of ''firefly'')
       \<notin> set (deep_scan_bytes (regular_file early_stop_file) None 1)
   \<and> pystr_of ''firefly'' \<in> set (scan_keys (Some [lone_surrogate]))
   \<and> encode_utf8 lone_surrogate = None
   \<and> chunks chunk_size split_file
       = [replicate (chunk_size - 4) 0 @ utf8_bytes ''fire'', utf8_bytes ''fly'']
   \<and> contains (utf8_bytes ''firefly'') (bytes_lower split_file)
   \<and> deep_scan_bytes (regular_file split_file) (Some [lone_surrogate]) 20 = []
   \<and> found_msg (pystr_of ''firefly'')
       \<notin> set (deep_scan_bytes (regular_file split_file) (Some [lone_surrogate]) 20)"
proof -
  have len: "overlap < length (utf8_bytes long_kw) - 1"
    by (simp add: long_kw_def utf8_bytes_replicate_x overlap_def)
  have ff: "''firefly'' \<in> set AI_KEYWORDS"
    by (simp add: AI_KEYWORDS_def)
  have key: "pystr_of ''firefly'' \<in> set (scan_keys None)"
    using ff by (rule AI_KEYWORDS_in_scan_keys)
  have key2: "pystr_of ''firefly'' \<in> set (scan_keys (Some [lone_surrogate]))"
    using ff by (rule AI_KEYWORDS_in_scan_keys)
  have miss: "found_msg (pystr_of ''firefly'')
       \<notin> set (deep_scan_bytes (regular_file early_stop_file) None 1)"
    by (simp add: early_stop_result found_msg_inject pystr_of_def)
  have sur: "encode_utf8 lone_surrogate = None"
    by (simp add: lone_surrogate_def)
  have miss2: "found_msg (pystr_of ''firefly'')
       \<notin> set (deep_scan_bytes (regular_file split_file) (Some [lone_surrogate]) 20)"
    by (simp add: surrogate_result)
  from long_kw_is_key encode_utf8_pystr_of [of long_kw] len chunks_long_kw_file long_kw_occurs
    long_kw_missed key encode_utf8_pystr_of [of "''firefly''"] chunks_early_stop_file
    firefly_occurs_early_stop miss key2 sur chunks_split_file firefly_occurs_split_file
    surrogate_result miss2
  show ?thesis by (intro conjI)
qed

text \<open>
  Claim C6, amended. The overlap kept between two windows is 64 bytes. For every file that
  is read without failure, if every key of the scan can be encoded as UTF-8, then every key
  (built-in or extra) whose encoding has at most 65 bytes (the overlap and one more) and
  that occurs in the lower-cased content, wherever the chunk boundaries fall in the
  occurrence, is reported, unless the scan returned early because \<^verbatim>\<open>max_matches\<close>
  messages were collected. In particular, with no extra keywords and the default
  \<^verbatim>\<open>max_matches = 20\<close>, every built-in keyword that occurs in a file is reported: the
  built-in keywords can be encoded and have at most 16 bytes, so for them the overlap is at
  least the longest keyword minus one byte.
\<close>

theorem deep_scan_bytes_detects_across_chunks:
  "(kw \<in> set (scan_keys extra) \<and> encode_utf8 kw = Some needle
      \<and> length needle \<le> overlap + 1
      \<and> contains needle (bytes_lower content)
      \<and> list_all encodable (scan_keys extra)
      \<and> int (length (deep_scan_bytes (regular_file content) extra max_matches)) < max_matches
     \<longrightarrow> found_msg kw \<in> set (deep_scan_bytes (regular_file content) extra max_matches))
   \<and> (word \<in> set AI_KEYWORDS \<and> contains (utf8_bytes word) (bytes_lower content)
     \<longrightarrow> found_msg (pystr_of word) \<in> set (deep_scan_bytes (regular_file content) None 20))
   \<and> list_all (\<lambda>k. length (utf8_bytes k) \<le> overlap + 1) AI_KEYWORDS
   \<and> list_all encodable (scan_keys None)"
proof (intro conjI impI)
  assume a: "kw \<in> set (scan_keys extra) \<and> encode_utf8 kw = Some needle
      \<and> length needle \<le> overlap + 1
      \<and> contains needle (bytes_lower content)
      \<and> list_all encodable (scan_keys extra)
      \<and> int (length (deep_scan_bytes (regular_file content) extra max_matches)) < max_matches"
  then have all: "\<forall>k \<in> set (scan_keys extra). encode_utf8 k \<noteq> None"
    by (simp add: list_all_iff encodable_def)
  from a show "found_msg kw \<in> set (deep_scan_bytes (regular_file content) extra max_matches)"
    using deep_scan_bytes_detects [of kw extra needle content max_matches] all by auto
next
  show short: "list_all (\<lambda>k. length (utf8_bytes k) \<le> overlap + 1) AI_KEYWORDS"
    using AI_KEYWORDS_short by (simp add: list_all_iff overlap_def) force
  show enc: "list_all encodable (scan_keys None)"
    by (rule encodable_scan_keys_None)
  assume b: "word \<in> set AI_KEYWORDS \<and> contains (utf8_bytes word) (bytes_lower content)"
  then have len: "length (utf8_bytes word) \<le> overlap + 1"
    using short by (simp add: list_all_iff)
  have all: "\<forall>k \<in> set (scan_keys None). encode_utf8 k \<noteq> None"
    using enc by (simp add: list_all_iff encodable_def)
  have "length (deep_scan_bytes (regular_file content) None 20) \<le> 19"
    using length_deep_scan_bytes [of "regular_file content" None 20] length_scan_keys_None
    by linarith
  then show "found_msg (pystr_of word) \<in> set (deep_scan_bytes (regular_file content) None 20)"
    using deep_scan_bytes_detects [where kw = "pystr_of word" and extra = None
        and n = "utf8_bytes word" and content = content and mx = 20]
      AI_KEYWORDS_in_scan_keys [of word None] len b all encode_utf8_pystr_of [of word]
    by auto
qed

theorem deep_scan_bytes_detects_across_chunks_witness:
  "pystr_of ''firefly'' \<in> set (scan_keys None)
   \<and> ''firefly'' \<in> set AI_KEYWORDS
   \<and> encode_utf8 (pystr_of ''firefly'') = Some (utf8_bytes ''firefly'')
   \<and> length (utf8_bytes ''firefly'') \<le> overlap + 1
   \<and> chunks chunk_size split_file
       = [replicate (chunk_size - 4) 0 @ utf8_bytes ''fire'', utf8_bytes ''fly'']
   \<and> contains (utf8_bytes ''firefly'') (bytes_lower split_file)
   \<and> list_all encodable (scan_keys None)
   \<and> int (length (deep_scan_bytes (regular_file split_file) None 20)) < 20
   \<and> found_msg (pystr_of ''firefly'') \<in> set (deep_scan_bytes (regular_file split_file) None 20)"
proof -
  have k: "''firefly'' \<in> set AI_KEYWORDS" by (simp add: AI_KEYWORDS_def)
  have k': "pystr_of ''firefly'' \<in> set (scan_keys None)"
    using k by (rule AI_KEYWORDS_in_scan_keys)
  have e: "encode_utf8 (pystr_of ''firefly'') = Some (utf8_bytes ''firefly'')"
    by (rule encode_utf8_pystr_of)
  have len: "length (utf8_bytes ''firefly'') \<le> overlap + 1"
    by (simp add: utf8_bytes_firefly overlap_def)
  have c: "contains (utf8_bytes ''firefly'') (bytes_lower split_file)"
    by (rule firefly_occurs_split_file)
  have enc: "list_all encodable (scan_keys None)"
    by (rule encodable_scan_keys_None)
  have n: "int (length (deep_scan_bytes (regular_file split_file) None 20)) < 20"
    using length_deep_scan_bytes [of "regular_file split_file" None 20] length_scan_keys_None
    by linarith
  have "found_msg (pystr_of ''firefly'') \<in> set (deep_scan_bytes (regular_file split_file) None 20)"
    using deep_scan_bytes_detects_across_chunks [of "pystr_of ''firefly''" None
        "utf8_bytes ''firefly''" split_file 20] k' e len c enc n
    by blast
  with k k' e len c enc n chunks_split_file show ?thesis by blast
qed


subsection \<open>Failures while reading\<close>

text \<open>The window of the file that fails at its second read, in lower case.\<close>

lemma failing_window_lower:
  "bytes_lower (utf8_bytes ''sdxl'' @ replicate (chunk_size - 4) 0)
     = utf8_bytes ''sdxl'' @ replicate (chunk_size - 4) 0"
  by (simp add: bytes_lower_append bytes_lower_replicate lower_byte_values utf8_bytes_sdxl
      bytes_lower_def lower_byte_sdxl)

lemma failing_window_others:
  "list_all (\<lambda>kw. \<not> contains (utf8_bytes kw) (utf8_bytes ''sdxl'' @ replicate (chunk_size - 4) 0))
     (remove1 ''sdxl'' AI_KEYWORDS)"
proof -
  have s: "set (utf8_bytes ''sdxl'' @ replicate (chunk_size - 4) 0) \<subseteq> {115, 100, 120, 108, 0}"
    by (auto simp: utf8_bytes_sdxl)
  show ?thesis
    unfolding AI_KEYWORDS_def
    by (simp, intro conjI; rule not_contains_by_set [OF s])
       (simp_all add: utf8_bytes_def encode_utf8_char_def)
qed

lemma failing_window_scan:
  "scan_window (utf8_bytes ''sdxl'' @ replicate (chunk_size - 4) 0) (map pystr_of AI_KEYWORDS)
     20 [] = ([found_msg (pystr_of ''sdxl'')], Completed)"
proof -
  let ?low = "utf8_bytes ''sdxl'' @ replicate (chunk_size - 4) 0"
  have others: "list_all (\<lambda>kw. \<not> contains (utf8_bytes kw) ?low) (remove1 ''sdxl'' AI_KEYWORDS)"
    by (rule failing_window_others)
  then have first: "\<not> contains (utf8_bytes ''stable diffusion'') ?low"
    by (simp add: AI_KEYWORDS_def)
  have rest: "list_all (\<lambda>kw. \<not> contains (utf8_bytes kw) ?low) (drop 2 AI_KEYWORDS)"
    using others by (simp add: AI_KEYWORDS_def)
  have hit: "contains (utf8_bytes ''sdxl'') ?low" by (rule contains_prefix)
  have split: "AI_KEYWORDS = ''stable diffusion'' # ''sdxl'' # drop 2 AI_KEYWORDS"
    by (simp add: AI_KEYWORDS_def)
  show ?thesis
    by (subst split) (simp add: first hit scan_window_no_hits [OF rest] encode_utf8_pystr_of)
qed

text \<open>
  Claim C9, as stated, fails: a failure in the middle of the scan does not empty the
  result. For a file whose first read returns a chunk that holds \<^verbatim>\<open>sdxl\<close> and whose
  second read raises, the scan returns the message found in the first chunk.
\<close>

theorem deep_scan_bytes_failure_keeps_matches:
  "deep_scan_bytes failing_file None 20 = [found_msg (pystr_of ''sdxl'')]
   \<and> deep_scan_bytes failing_file None 20 \<noteq> []"
proof -
  have "chunk_size - 4 \<noteq> 0" by (simp add: chunk_size_def)
  then have ne: "utf8_bytes ''sdxl'' @ replicate (chunk_size - 4) 0 \<noteq> []" by simp
  have "deep_scan_bytes failing_file None 20 = [found_msg (pystr_of ''sdxl'')]"
    using ne
    by (simp add: deep_scan_bytes_def failing_file_def scan_keys_None Let_def
        failing_window_lower failing_window_scan del: append_is_Nil_conv)
  then show ?thesis by simp
qed

text \<open>
  Claim C9, amended. The byte scan never propagates an I/O failure. When the file cannot be
  opened, or the first read fails, it returns the empty list; when a later read fails it
  returns the matches collected from the reads before the failure, the same list as for a
  file that ends there.
\<close>

theorem deep_scan_bytes_failure:
  "deep_scan_bytes OpenError extra mx = []
   \<and> deep_scan_bytes (Opened (ReadError # rest)) extra mx = []
   \<and> deep_scan_bytes (Opened (rs @ ReadError # rest)) extra mx
       = deep_scan_bytes (Opened rs) extra mx"
  by (simp add: deep_scan_bytes_def scan_chunks_read_error)


section \<open>Properties of the readable scan\<close>

lemma find_loop_filter: "find_loop text_l kws = filter (\<lambda>kw. contains kw text_l) kws"
  by (induction kws) simp_all

lemma find_keywords_filter:
  "find_keywords text kws = filter (\<lambda>kw. contains kw (str_lower text)) kws"
  by (simp add: find_keywords_def find_loop_filter)

lemma scan_items_eq:
  "scan_items str_of k items reasons = reasons @ List.map_filter (field_reason str_of k) items"
proof (induction items arbitrary: reasons)
  case Nil
  then show ?case by simp
next
  case (Cons item items)
  obtain t v where item: "item = (t, v)" by (cases item)
  show ?case
    unfolding item
    by (simp add: Cons.IH field_reason_def find_keywords_filter
        reason_text_def Let_def split: option.splits)
qed

lemma scan_groups_eq:
  "scan_groups str_of r names reasons
     = reasons @ concat (map (\<lambda>k. List.map_filter (field_reason str_of k) (group_items r k)) names)"
  by (induction names arbitrary: reasons) (simp_all add: scan_items_eq)

lemma reasons_eq:
  "snd (detect_ai_from_exif_readable str_of r)
     = concat (map (\<lambda>k. List.map_filter (field_reason str_of k) (group_items r k))
                 [''0th'', ''Exif'', ''1st''])"
  by (simp add: detect_ai_from_exif_readable_def Let_def scan_groups_eq)

lemma map_filter_filter_None:
  "(\<And>x. \<not> P x \<Longrightarrow> f x = None) \<Longrightarrow> List.map_filter f (filter P xs) = List.map_filter f xs"
proof (induction xs)
  case Nil
  then show ?case by simp
next
  case (Cons a xs)
  have ih: "List.map_filter f (filter P xs) = List.map_filter f xs"
    by (rule Cons.IH) (rule Cons.prems)
  show ?case
  proof (cases "P a")
    case True
    then show ?thesis by (simp add: ih split: option.split)
  next
    case False
    then have "f a = None" by (rule Cons.prems)
    with False show ?thesis by (simp add: ih split: option.split)
  qed
qed

lemma map_filter_field_reason_candidates:
  "List.map_filter (field_reason str_of k)
     (filter (\<lambda>(tag_name, val). tag_name \<in> set CANDIDATE_TAGS) items)
   = List.map_filter (field_reason str_of k) items"
  by (rule map_filter_filter_None) (auto simp: field_reason_def)

lemma detect_eq_iff:
  "snd (detect_ai_from_exif_readable str_of r) = snd (detect_ai_from_exif_readable str_of r')
   \<Longrightarrow> detect_ai_from_exif_readable str_of r = detect_ai_from_exif_readable str_of r'"
  by (simp add: detect_ai_from_exif_readable_def Let_def)

lemma lower_scenario: "str_lower ''Adobe Firefly 2.1'' = ''adobe firefly 2.1''"
  by code_simp

lemma hits_scenario:
  "filter (\<lambda>kw. contains kw ''adobe firefly 2.1'') AI_KEYWORDS = [''firefly'', ''adobe firefly'']"
  by code_simp

lemma sort_scenario:
  "sort (remdups [''firefly'', ''adobe firefly'']) = [''adobe firefly'', ''firefly'']"
  by code_simp

lemma group_items_upd_other:
  "k \<noteq> k' \<Longrightarrow> group_items (r(k' := g)) k = group_items r k"
  by (simp add: group_items_def)

lemma group_items_examined:
  "k = ''0th'' \<or> k = ''Exif'' \<or> k = ''1st'' \<Longrightarrow>
   group_items (examined r) k
     = filter (\<lambda>(tag_name, val). tag_name \<in> set CANDIDATE_TAGS) (group_items r k)"
  by (auto simp: group_items_def examined_def)

lemma firefly_doc_scan:
  "detect_ai_from_exif_readable Some firefly_doc
     = (True, [''0th.Software contains: adobe firefly, firefly''])"
proof -
  have items: "group_items firefly_doc ''0th'' = [(''Software'', ''Adobe Firefly 2.1'')]"
    "group_items firefly_doc ''Exif'' = []" "group_items firefly_doc ''1st'' = []"
    by (simp_all add: group_items_def firefly_doc_def)
  have cand: "''Software'' \<in> set CANDIDATE_TAGS" by (simp add: CANDIDATE_TAGS_def)
  have r: "field_reason Some ''0th'' (''Software'', ''Adobe Firefly 2.1'')
            = Some ''0th.Software contains: adobe firefly, firefly''"
    unfolding field_reason_def
    by (simp only: prod.case cand if_True option.case lower_scenario hits_scenario
          sort_scenario) simp
  have "snd (detect_ai_from_exif_readable Some firefly_doc)
          = [''0th.Software contains: adobe firefly, firefly'']"
    by (simp add: reasons_eq items r)
  moreover have "detect_ai_from_exif_readable Some firefly_doc
      = (snd (detect_ai_from_exif_readable Some firefly_doc) \<noteq> [],
         snd (detect_ai_from_exif_readable Some firefly_doc))"
    by (simp add: detect_ai_from_exif_readable_def Let_def)
  ultimately show ?thesis by simp
qed

text \<open>
  Claim C7. \<open>detect_ai_from_exif_readable\<close> reports as detected exactly when there is a
  reason. Its reasons are, for the groups \<^verbatim>\<open>"0th"\<close>, \<^verbatim>\<open>"Exif"\<close> and \<^verbatim>\<open>"1st"\<close> in this
  order and the fields of each in their order, the reasons of \<open>field_reason\<close>: one for each
  allow-listed field whose lower-cased text holds a keyword of the fixed list, naming the
  group, the field and the matching keywords without repetition. The location group
  \<^verbatim>\<open>"GPS"\<close> has no influence, nor has any field outside the allow-list. A document whose
  primary group has Software = \<^verbatim>\<open>"Adobe Firefly 2.1"\<close> is detected, with the one reason
  \<^verbatim>\<open>"0th.Software contains: adobe firefly, firefly"\<close>.
\<close>

theorem detect_ai_from_exif_readable_spec:
  "(fst (detect_ai_from_exif_readable str_of r)
      \<longleftrightarrow> snd (detect_ai_from_exif_readable str_of r) \<noteq> [])
   \<and> snd (detect_ai_from_exif_readable str_of r)
       = concat (map (\<lambda>k. List.map_filter (field_reason str_of k) (group_items r k))
                   [''0th'', ''Exif'', ''1st''])
   \<and> detect_ai_from_exif_readable str_of (r(''GPS'' := g)) = detect_ai_from_exif_readable str_of r
   \<and> detect_ai_from_exif_readable str_of (examined r) = detect_ai_from_exif_readable str_of r
   \<and> detect_ai_from_exif_readable Some firefly_doc
       = (True, [''0th.Software contains: adobe firefly, firefly''])"
proof (intro conjI)
  show "fst (detect_ai_from_exif_readable str_of r)
      \<longleftrightarrow> snd (detect_ai_from_exif_readable str_of r) \<noteq> []"
    by (simp add: detect_ai_from_exif_readable_def Let_def)
  show "snd (detect_ai_from_exif_readable str_of r)
       = concat (map (\<lambda>k. List.map_filter (field_reason str_of k) (group_items r k))
                   [''0th'', ''Exif'', ''1st''])"
    by (rule reasons_eq)
  show "detect_ai_from_exif_readable str_of (r(''GPS'' := g)) = detect_ai_from_exif_readable str_of r"
    by (rule detect_eq_iff) (simp add: reasons_eq group_items_upd_other)
  show "detect_ai_from_exif_readable str_of (examined r) = detect_ai_from_exif_readable str_of r"
    by (rule detect_eq_iff)
       (simp add: reasons_eq group_items_examined map_filter_field_reason_candidates)
  show "detect_ai_from_exif_readable Some firefly_doc
       = (True, [''0th.Software contains: adobe firefly, firefly''])"
    by (rule firefly_doc_scan)
qed


section \<open>Properties of the orchestrator\<close>










subsection \<open>Dry run\<close>

text \<open>
  No branch of a dry run writes a regular file: the only operation on the disk is the
  directory creation inside \<open>make_output_path\<close>.
\<close>

lemma files_mkdir_parents: "files (snd (mkdir_parents p fs)) = files fs"
  by (simp add: mkdir_parents_def)

lemma files_make_output_path: "files (snd (make_output_path src opts fs)) = files fs"
  by (auto simp: make_output_path_def mkdir_parents_def Let_def split: option.splits prod.splits sum.splits if_splits)

lemma dry_run_keeps_files:
  "dry_run opts \<Longrightarrow> files (snd (apply_strip_and_replace lib src opts fs)) = files fs"
  using files_make_output_path [of src opts fs]
  by (auto simp: apply_strip_and_replace_def write_modified_def Let_def
      split: prod.splits sum.splits)

lemma path_of_string_out: "path_of_string ''out'' = Path False [''out'']"
  by (simp add: path_of_string_def)

text \<open>
  Claim C2 says that a dry run creates nothing on disk. The code creates directories: for
  the valid plan \<open>dry_args\<close> (dry run, output directory \<^verbatim>\<open>out\<close>) and a disk without any
  directory, \<open>apply_strip_and_replace\<close> returns success with the would-be destination
  \<^verbatim>\<open>out/photo.jpg\<close> and leaves the directory \<^verbatim>\<open>out\<close> behind. The two other places
  that create the destination's directory (\<^verbatim>\<open>write_bytes\<close> and the output-directory
  branch of \<^verbatim>\<open>apply_strip_and_replace\<close>) do so only when \<^verbatim>\<open>dry_run\<close> is off.
\<close>

theorem dry_run_creates_directory:
  "valid_plan dry_args \<and> dry_run (build_modify_options dry_args None)
   \<and> dirs one_photo = {}
   \<and> fst (apply_strip_and_replace jpeg_only photo (build_modify_options dry_args None) one_photo)
       = Inr (True, None, Some (Path False [''out'', ''photo.jpg'']))
   \<and> dirs (snd (apply_strip_and_replace jpeg_only photo (build_modify_options dry_args None)
                  one_photo))
       = {Path False [''out'']}"
  by (simp add: valid_plan_def modifications_def dry_args_def build_modify_options_def truthy_def
      one_photo_def photo_def jpeg_only_def apply_strip_and_replace_def write_modified_def
      loaded_exif_def is_supported_for_write_def
      get_image_format_def is_format_supported_for_exif_def SUPPORTED_FORMATS_def
      load_exif_dict_def make_output_path_def mkdir_parents_def ancestors_def
      path_of_string_out name_path_def path_name_def joinpath_def path_parent_def Let_def)


end

